theory Spec2Isabelle
  imports Complex_Main
begin

section \<open>The block-stacking task of gym-hil: data model\<close>

text \<open>
  This theory embeds \<^verbatim>\<open>PandaStackCubesGymEnv\<close> of
  \<^verbatim>\<open>gym_hil/envs/panda_stack_gym_env.py\<close>. Conventions:
  \<^item> float64 values are idealised as \<^typ>\<open>real\<close>: arithmetic is exact, there is no
    rounding, infinity or NaN. Division by a zero \<^verbatim>\<open>_block_z\<close> is therefore outside
    the model (numpy yields inf/nan there, HOL yields 0); theorems on the lift term assume
    a positive half-height.
  \<^item> MuJoCo's named access \<^verbatim>\<open>data.joint(name)\<close>, \<^verbatim>\<open>data.sensor(name)\<close>
    raises \<^verbatim>\<open>KeyError\<close> for a name the model does not define; the tables are partial
    maps and a missing name is an error value.
  \<^item> an attribute of \<^verbatim>\<open>self\<close> that is only created by \<^verbatim>\<open>reset\<close> is an
    \<^typ>\<open>'a option\<close> field, \<^term>\<open>None\<close> while the attribute does not exist.
  \<^item> the debug log that \<^verbatim>\<open>_is_success\<close> prints is not part of the model; the joint
    reads it performs are, since they can raise.
\<close>

type_synonym vec3 = "real \<times> real \<times> real"

datatype error = KeyError string | AttributeError string | IndexError

text \<open>
  The physics snapshot \<^verbatim>\<open>self._data\<close>. The scene description (MuJoCo XML) is not part
  of the sources; following the external-interface section of the specification, every
  tracked object has a joint whose first three \<^verbatim>\<open>qpos\<close> entries are its position and
  a three-dimensional position sensor, and the gripper has a driver joint with a scalar
  position. \<^verbatim>\<open>robot_state\<close> and \<^verbatim>\<open>views\<close> stand for what the external
  \<^verbatim>\<open>get_robot_state()\<close> and \<^verbatim>\<open>render()\<close> return for this snapshot.
\<close>

type_synonym image = "nat list list list"

record mjdata =
  block_qpos :: "string \<rightharpoonup> vec3"
  driver_qpos :: "string \<rightharpoonup> real"
  sensor_data :: "string \<rightharpoonup> vec3"
  robot_state :: "real list"
  views :: "image \<times> image"

text \<open>
  The environment object \<^verbatim>\<open>self\<close>: the constructor's configuration, the per-episode
  attributes \<^verbatim>\<open>_z_inits\<close> and \<^verbatim>\<open>_prev_gripper_closed\<close>, and the seed of
  gymnasium's per-environment generator. \<open>tracker_calls\<close> is a ghost field, not an
  attribute of the source: it counts the evaluations of
  \<^verbatim>\<open>_was_block_just_released\<close> and is written nowhere else.
\<close>

record env =
  reward_type :: string
  num_blocks :: int
  block_z :: real
  random_block_position :: bool
  image_obs :: bool
  z_inits :: "real list option"
  prev_gripper_closed :: "bool option"
  np_random_seed :: "int option"
  tracker_calls :: nat

section \<open>Helpers for Python constructs\<close>

text \<open>\<^verbatim>\<open>range(n)\<close>: empty for \<open>n \<le> 0\<close>.\<close>

definition py_range :: "int \<Rightarrow> nat list" where
  "py_range n = [0..<nat n]"

text \<open>Decimal rendering of a non-negative integer, as an f-string does.\<close>

fun str_nat :: "nat \<Rightarrow> string" where
  "str_nat n =
     (if n < 10 then [''0123456789'' ! n]
      else str_nat (n div 10) @ [''0123456789'' ! (n mod 10)])"

declare str_nat.simps [simp del]

text \<open>Sequencing over a list that stops at the first error, as a raising comprehension.\<close>

fun traverse :: "('a \<Rightarrow> error + 'b) \<Rightarrow> 'a list \<Rightarrow> error + 'b list" where
  "traverse f [] = Inr []"
| "traverse f (x # xs) =
     (case f x of
        Inl e \<Rightarrow> Inl e
      | Inr y \<Rightarrow> (case traverse f xs of Inl e \<Rightarrow> Inl e | Inr ys \<Rightarrow> Inr (y # ys)))"

definition sensor :: "mjdata \<Rightarrow> string \<Rightarrow> error + vec3" where
  "sensor d name = (case sensor_data d name of None \<Rightarrow> Inl (KeyError name) | Some v \<Rightarrow> Inr v)"

definition joint3 :: "mjdata \<Rightarrow> string \<Rightarrow> error + vec3" where
  "joint3 d name = (case block_qpos d name of None \<Rightarrow> Inl (KeyError name) | Some v \<Rightarrow> Inr v)"

definition vx :: "vec3 \<Rightarrow> real" where "vx p = fst p"
definition vy :: "vec3 \<Rightarrow> real" where "vy p = fst (snd p)"
definition vz :: "vec3 \<Rightarrow> real" where "vz p = snd (snd p)"

text \<open>The name \<^verbatim>\<open>f"block{i + 1}"\<close> used by the reward and the success check.\<close>

definition block_name :: "nat \<Rightarrow> string" where
  "block_name i = ''block'' @ str_nat (i + 1)"

text \<open>The name \<^verbatim>\<open>f"block{i}" if i > 0 else "block1"\<close> used by \<^verbatim>\<open>reset\<close>.\<close>

definition reset_name :: "nat \<Rightarrow> string" where
  "reset_name i = (if i > 0 then ''block'' @ str_nat i else ''block1'')"

section \<open>Gripper state and release detection\<close>

definition is_gripper_closed :: "mjdata \<Rightarrow> error + bool" where
  "is_gripper_closed d =
     (case driver_qpos d ''left_driver_joint'' of
        None \<Rightarrow> Inl (KeyError ''left_driver_joint'')
      | Some left_finger \<Rightarrow> Inr (left_finger > 0.1))"

definition was_block_just_released :: "mjdata \<Rightarrow> env \<Rightarrow> error + (bool \<times> env)" where
  "was_block_just_released d self =
     (let self1 = self\<lparr>tracker_calls := tracker_calls self + 1\<rparr> in
      case prev_gripper_closed self1 of
        None \<Rightarrow>
          (case is_gripper_closed d of
             Inl e \<Rightarrow> Inl e
           | Inr c \<Rightarrow> Inr (False, self1\<lparr>prev_gripper_closed := Some c\<rparr>))
      | Some prev \<Rightarrow>
          (case is_gripper_closed d of
             Inl e \<Rightarrow> Inl e
           | Inr current_closed \<Rightarrow>
               Inr (prev \<and> \<not> current_closed,
                    self1\<lparr>prev_gripper_closed := Some current_closed\<rparr>)))"

section \<open>Success detection\<close>

text \<open>The test of one ordered pair, \<open>upper\<close> over \<open>lower\<close> (source lines 273-284).\<close>

definition xy_dist :: "vec3 \<Rightarrow> vec3 \<Rightarrow> real" where
  "xy_dist upper lower = sqrt ((vx upper - vx lower)\<^sup>2 + (vy upper - vy lower)\<^sup>2)"

definition z_diff :: "vec3 \<Rightarrow> vec3 \<Rightarrow> real" where
  "z_diff upper lower = vz upper - vz lower"

definition pair_stacked :: "real \<Rightarrow> vec3 \<Rightarrow> vec3 \<Rightarrow> bool" where
  "pair_stacked bz upper lower =
     (xy_dist upper lower < 0.030 \<and> z_diff upper lower > 0.03 \<and>
      \<bar>z_diff upper lower - bz * 2\<bar> < 0.05)"

text \<open>
  The inner loop over \<open>j\<close> with its \<^verbatim>\<open>continue\<close> and \<^verbatim>\<open>break\<close>, and the outer
  loop over \<open>i\<close>, which stops as soon as \<^verbatim>\<open>stacked\<close> is set. Both return the flag.
\<close>

fun scan_lower :: "real \<Rightarrow> vec3 list \<Rightarrow> nat \<Rightarrow> nat list \<Rightarrow> bool" where
  "scan_lower bz positions i [] = False"
| "scan_lower bz positions i (j # js) =
     (if i = j then scan_lower bz positions i js
      else if pair_stacked bz (positions ! i) (positions ! j) then True
      else scan_lower bz positions i js)"

fun scan_upper :: "real \<Rightarrow> vec3 list \<Rightarrow> int \<Rightarrow> nat list \<Rightarrow> bool" where
  "scan_upper bz positions n [] = False"
| "scan_upper bz positions n (i # is) =
     (if scan_lower bz positions i (py_range n) then True
      else scan_upper bz positions n is)"

definition read_positions :: "mjdata \<Rightarrow> int \<Rightarrow> error + vec3 list" where
  "read_positions d n = traverse (\<lambda>i. sensor d (block_name i @ ''_pos'')) (py_range n)"

definition is_success :: "mjdata \<Rightarrow> env \<Rightarrow> error + bool" where
  "is_success d self =
     (case read_positions d (num_blocks self) of
        Inl e \<Rightarrow> Inl e
      | Inr positions \<Rightarrow>
          (case traverse (\<lambda>i. joint3 d (block_name i)) (py_range (num_blocks self)) of
             Inl e \<Rightarrow> Inl e
           | Inr logged \<Rightarrow>
               Inr (scan_upper (block_z self) positions (num_blocks self)
                      (py_range (num_blocks self)))))"

section \<open>Observation\<close>

text \<open>
  The two layouts of \<^verbatim>\<open>_compute_observation\<close>. The sensor of \<^verbatim>\<open>block1\<close> is read
  in both layouts, before the branch.
\<close>

datatype observation =
  StateObs "real list" vec3
| PixelObs "image \<times> image" "real list"

definition compute_observation :: "mjdata \<Rightarrow> env \<Rightarrow> error + observation" where
  "compute_observation d self =
     (case sensor d ''block1_pos'' of
        Inl e \<Rightarrow> Inl e
      | Inr block1_pos \<Rightarrow>
          if image_obs self then Inr (PixelObs (views d) (robot_state d))
          else Inr (StateObs (robot_state d) block1_pos))"

section \<open>Reward\<close>

definition clip :: "real \<Rightarrow> real \<Rightarrow> real \<Rightarrow> real" where
  "clip x lo hi = min (max x lo) hi"

text \<open>
  The loop of source lines 228-232 over \<^verbatim>\<open>enumerate(block_positions)\<close>, with
  \<open>m\<close> the running \<^verbatim>\<open>max_lift_reward\<close>. Reading \<^verbatim>\<open>self._z_inits[i]\<close> raises when
  the attribute does not exist yet or is too short.
\<close>

fun lift_loop :: "real \<Rightarrow> real list option \<Rightarrow> real \<Rightarrow> (nat \<times> vec3) list \<Rightarrow> error + real" where
  "lift_loop bz zs m [] = Inr m"
| "lift_loop bz zs m ((i, pos) # rest) =
     (case zs of
        None \<Rightarrow> Inl (AttributeError ''_z_inits'')
      | Some z \<Rightarrow>
          if i < length z then
            (let lift = (vz pos - z ! i) / (bz * 2);
                 lift_reward = clip lift 0.0 1.0
             in lift_loop bz zs (max m lift_reward) rest)
          else Inl IndexError)"

definition max_lift_reward :: "mjdata \<Rightarrow> env \<Rightarrow> error + real" where
  "max_lift_reward d self =
     (case read_positions d (num_blocks self) of
        Inl e \<Rightarrow> Inl e
      | Inr block_positions \<Rightarrow>
          lift_loop (block_z self) (z_inits self) 0.0 (enumerate 0 block_positions))"

text \<open>
  The \<^verbatim>\<open>if released and success / elif success\<close> chain of dense mode. Python's
  \<^verbatim>\<open>and\<close> evaluates \<^verbatim>\<open>_is_success\<close> only after a release; the \<^verbatim>\<open>elif\<close>
  evaluates it (again) whenever the first condition is false.
\<close>

definition stack_reward :: "mjdata \<Rightarrow> env \<Rightarrow> bool \<Rightarrow> error + real" where
  "stack_reward d self released =
     (case (if released then is_success d self else Inr False) of
        Inl e \<Rightarrow> Inl e
      | Inr True \<Rightarrow> Inr 2.0
      | Inr False \<Rightarrow>
          (case is_success d self of
             Inl e \<Rightarrow> Inl e
           | Inr True \<Rightarrow> Inr 0.5
           | Inr False \<Rightarrow> Inr 0.0))"

definition compute_reward :: "mjdata \<Rightarrow> env \<Rightarrow> error + (real \<times> env)" where
  "compute_reward d self =
     (if reward_type self = ''dense'' then
        (case max_lift_reward d self of
           Inl e \<Rightarrow> Inl e
         | Inr lift \<Rightarrow>
             (case was_block_just_released d self of
                Inl e \<Rightarrow> Inl e
              | Inr (released, self') \<Rightarrow>
                  (case stack_reward d self' released of
                     Inl e \<Rightarrow> Inl e
                   | Inr stack \<Rightarrow> Inr (0.3 * lift + 0.7 * stack, self'))))
      else
        (case was_block_just_released d self of
           Inl e \<Rightarrow> Inl e
         | Inr (released, self') \<Rightarrow>
             (case (if released then is_success d self' else Inr False) of
                Inl e \<Rightarrow> Inl e
              | Inr True \<Rightarrow> Inr (1.0, self')
              | Inr False \<Rightarrow> Inr (0.0, self'))))"

section \<open>Step\<close>

text \<open>
  \<^verbatim>\<open>_SAMPLING_BOUNDS\<close> and the bounds test of source lines 156-159 on the position
  sensor of \<^verbatim>\<open>block1\<close>.
\<close>

definition SAMPLING_BOUNDS :: "(real \<times> real) \<times> (real \<times> real)" where
  "SAMPLING_BOUNDS = ((0.3, -0.15), (0.5, 0.15))"

definition exceeded_bounds :: "vec3 \<Rightarrow> bool" where
  "exceeded_bounds block1_pos =
     ((vx block1_pos < fst (fst SAMPLING_BOUNDS) - 0.05 \<or>
       vy block1_pos < snd (fst SAMPLING_BOUNDS) - 0.05) \<or>
      (vx block1_pos > fst (snd SAMPLING_BOUNDS) + 0.05 \<or>
       vy block1_pos > snd (snd SAMPLING_BOUNDS) + 0.05))"

record step_result =
  obs :: observation
  reward :: real
  terminated :: bool
  truncated :: bool
  info :: "string \<rightharpoonup> bool"

text \<open>
  \<^verbatim>\<open>step\<close>, on the snapshot \<open>d\<close> that the external \<^verbatim>\<open>apply_action\<close> has left.
  It returns the result tuple and the updated \<^verbatim>\<open>self\<close>.
\<close>

definition step :: "mjdata \<Rightarrow> env \<Rightarrow> error + (step_result \<times> env)" where
  "step d self =
     (case compute_observation d self of
        Inl e \<Rightarrow> Inl e
      | Inr ob \<Rightarrow>
     (case compute_reward d self of
        Inl e \<Rightarrow> Inl e
      | Inr (rew, self') \<Rightarrow>
     (case is_success d self' of
        Inl e \<Rightarrow> Inl e
      | Inr raw \<Rightarrow>
     (case sensor d ''block1_pos'' of
        Inl e \<Rightarrow> Inl e
      | Inr block1_pos \<Rightarrow>
          (let success = (if reward_type self' = ''sparse'' then rew = 1.0 else raw);
               term = (success \<or> exceeded_bounds block1_pos)
           in Inr (\<lparr>obs = ob, reward = rew, terminated = term, truncated = False,
                     info = [''succeed'' \<mapsto> success]\<rparr>, self'))))))"

section \<open>Reset\<close>

text \<open>
  numpy's module-level generator, as the stream of the unit samples it will hand out.
  \<^verbatim>\<open>np.random.uniform(*_SAMPLING_BOUNDS)\<close> draws one unit sample per coordinate and
  scales it to \<open>low + (high - low) * u\<close>.
\<close>

type_synonym rng = "nat \<Rightarrow> real"

definition uniform_sampling :: "rng \<Rightarrow> (real \<times> real) \<times> rng" where
  "uniform_sampling g =
     ((fst (fst SAMPLING_BOUNDS) + (fst (snd SAMPLING_BOUNDS) - fst (fst SAMPLING_BOUNDS)) * g 0,
       snd (fst SAMPLING_BOUNDS) + (snd (snd SAMPLING_BOUNDS) - snd (fst SAMPLING_BOUNDS)) * g 1),
      (\<lambda>n. g (n + 2)))"

text \<open>
  Modelled from the spec: \<^verbatim>\<open>FrankaGymEnv.reset\<close> (module \<^verbatim>\<open>gym_hil.mujoco_gym_env\<close>)
  is not under the sources. The specification says that reset re-seeds randomness if a seed
  is provided, and the comment at the call site says which: gymnasium's internal generator
  of this environment. The generator is represented by the seed it was last given.
\<close>

definition super_reset :: "int option \<Rightarrow> env \<Rightarrow> env" where
  "super_reset seed self =
     (case seed of None \<Rightarrow> self | Some s \<Rightarrow> self\<lparr>np_random_seed := Some s\<rparr>)"

text \<open>The placement loop of source lines 122-129.\<close>

fun place_blocks :: "env \<Rightarrow> rng \<Rightarrow> mjdata \<Rightarrow> nat list \<Rightarrow> error + (mjdata \<times> rng)" where
  "place_blocks self g d [] = Inr (d, g)"
| "place_blocks self g d (i # is) =
     (let name = reset_name i;
          (block_xy, g') =
            (if random_block_position self then uniform_sampling g
             else ((0.5, - 0.1 + real i * 0.1), g))
      in case block_qpos d name of
           None \<Rightarrow> Inl (KeyError name)
         | Some old \<Rightarrow>
             place_blocks self g'
               (d\<lparr>block_qpos := (block_qpos d)(name \<mapsto> (fst block_xy, snd block_xy, block_z self))\<rparr>)
               is)"

text \<open>The loop of source lines 132-136 that fills \<^verbatim>\<open>_z_inits\<close>.\<close>

definition read_z_inits :: "mjdata \<Rightarrow> int \<Rightarrow> error + real list" where
  "read_z_inits d n =
     traverse (\<lambda>i. case sensor d (reset_name i @ ''_pos'') of
                      Inl e \<Rightarrow> Inl e | Inr p \<Rightarrow> Inr (vz p)) (py_range n)"

text \<open>
  \<^verbatim>\<open>reset\<close>. \<open>d\<close> is the snapshot that the external \<^verbatim>\<open>mj_resetData\<close> and
  \<^verbatim>\<open>reset_robot\<close> have left, \<open>g\<close> the state of numpy's module-level generator. It
  returns the observation, the (empty) info dictionary, the updated \<^verbatim>\<open>self\<close>, the
  snapshot after placement and the generator after the draws.
\<close>

definition reset ::
  "int option \<Rightarrow> rng \<Rightarrow> mjdata \<Rightarrow> env \<Rightarrow>
   error + ((observation \<times> (string \<rightharpoonup> bool)) \<times> env \<times> mjdata \<times> rng)" where
  "reset seed g d self =
     (let self1 = super_reset seed self in
      case place_blocks self1 g d (py_range (num_blocks self1)) of
        Inl e \<Rightarrow> Inl e
      | Inr (d1, g1) \<Rightarrow>
     (case read_z_inits d1 (num_blocks self1) of
        Inl e \<Rightarrow> Inl e
      | Inr zs \<Rightarrow>
          (let self2 = self1\<lparr>z_inits := Some zs, prev_gripper_closed := Some False\<rparr> in
           case compute_observation d1 self2 of
             Inl e \<Rightarrow> Inl e
           | Inr ob \<Rightarrow> Inr ((ob, Map.empty), self2, d1, g1))))"

section \<open>Concrete scenes and notions used to state the properties\<close>

text \<open>
  A snapshot with two blocks at \<open>p1\<close> and \<open>p2\<close> (joint and sensor agree) and the gripper
  driver joint at \<open>q\<close>, and the environment object as the constructor leaves it, with
  half-height 0.02.
\<close>

definition scene2 :: "real \<Rightarrow> vec3 \<Rightarrow> vec3 \<Rightarrow> mjdata" where
  "scene2 q p1 p2 =
     \<lparr>block_qpos = [''block1'' \<mapsto> p1, ''block2'' \<mapsto> p2],
      driver_qpos = [''left_driver_joint'' \<mapsto> q],
      sensor_data = [''block1_pos'' \<mapsto> p1, ''block2_pos'' \<mapsto> p2],
      robot_state = [], views = ([], [])\<rparr>"

definition fresh_env :: "string \<Rightarrow> int \<Rightarrow> bool \<Rightarrow> env" where
  "fresh_env rt n rnd =
     \<lparr>reward_type = rt, num_blocks = n, block_z = 0.02, random_block_position = rnd,
      image_obs = False, z_inits = None, prev_gripper_closed = None,
      np_random_seed = None, tracker_calls = 0\<rparr>"

text \<open>
  The environment object in the middle of an episode with two blocks whose baselines are
  both 0.02: \<^verbatim>\<open>reset\<close> has run and the gripper state seen last is \<open>prev\<close>.
\<close>

definition episode_env :: "string \<Rightarrow> bool \<Rightarrow> env" where
  "episode_env rt prev =
     (fresh_env rt 2 False)\<lparr>z_inits := Some [0.02, 0.02], prev_gripper_closed := Some prev\<rparr>"

text \<open>
  A state of numpy's module-level generator: its next unit samples are
  \<open>1/k, 1/(k+1), \<dots>\<close>.
\<close>

definition harmonic_draws :: "nat \<Rightarrow> rng" where
  "harmonic_draws k n = 1 / (real n + real k)"

text \<open>
  Every name that \<^verbatim>\<open>_is_success\<close> reads for \<open>n\<close> blocks is defined in the snapshot.
\<close>

definition blocks_defined :: "mjdata \<Rightarrow> int \<Rightarrow> bool" where
  "blocks_defined d n =
     (\<forall>i < nat n. sensor_data d (block_name i @ ''_pos'') \<noteq> None \<and>
                   block_qpos d (block_name i) \<noteq> None)"

text \<open>
  The release detector fed with the snapshots of successive steps; it collects what each
  call returns.
\<close>

fun tracker_run :: "mjdata list \<Rightarrow> env \<Rightarrow> error + (bool list \<times> env)" where
  "tracker_run [] self = Inr ([], self)"
| "tracker_run (d # ds) self =
     (case was_block_just_released d self of
        Inl e \<Rightarrow> Inl e
      | Inr (r, self') \<Rightarrow>
          (case tracker_run ds self' of
             Inl e \<Rightarrow> Inl e
           | Inr (rs, self'') \<Rightarrow> Inr (r # rs, self'')))"

text \<open>
  The specification's count: the closed-to-open transitions of a sequence of gripper
  states, that is, the adjacent pairs (closed, open).
\<close>

fun closed_to_open :: "bool list \<Rightarrow> nat" where
  "closed_to_open (a # b # bs) = (if a \<and> \<not> b then 1 else 0) + closed_to_open (b # bs)"
| "closed_to_open bs = 0"

definition gripper_closed :: "mjdata \<Rightarrow> bool" where
  "gripper_closed d = (is_gripper_closed d = Inr True)"

section \<open>Evaluation lemmas\<close>

lemma str_nat_digit: "n < 10 \<Longrightarrow> str_nat n = [''0123456789'' ! n]"
  by (simp add: str_nat.simps)
lemma block_name_0: "block_name 0 = ''block1''" by (simp add: block_name_def str_nat_digit)
lemma block_name_1: "block_name (Suc 0) = ''block2''" by (simp add: block_name_def str_nat_digit)
lemma reset_name_0: "reset_name 0 = ''block1''" by (simp add: reset_name_def)
lemma reset_name_1: "reset_name (Suc 0) = ''block1''" by (simp add: reset_name_def str_nat_digit)
lemma py_range_1: "py_range 1 = [0]" by (simp add: py_range_def)
lemma py_range_2: "py_range 2 = [0, Suc 0]" by (simp add: py_range_def upt_rec)
lemma set_py_range: "set (py_range n) = {..<nat n}" by (auto simp: py_range_def)
lemma length_py_range: "length (py_range n) = nat n" by (simp add: py_range_def)

lemma traverse_Inr_length: "traverse f xs = Inr ys \<Longrightarrow> length ys = length xs"
  by (induction xs arbitrary: ys) (auto split: sum.splits)

lemma traverse_Inr_nth:
  "traverse f xs = Inr ys \<Longrightarrow> k < length xs \<Longrightarrow> f (xs ! k) = Inr (ys ! k)"
proof (induction xs arbitrary: ys k)
  case Nil then show ?case by simp
next
  case (Cons x xs)
  then show ?case by (cases k) (auto split: sum.splits)
qed

lemma traverse_total:
  "(\<And>x. x \<in> set xs \<Longrightarrow> \<exists>y. f x = Inr y) \<Longrightarrow> \<exists>ys. traverse f xs = Inr ys"
proof (induction xs)
  case Nil then show ?case by simp
next
  case (Cons x xs)
  then obtain y where "f x = Inr y" by fastforce
  moreover from Cons obtain ys where "traverse f xs = Inr ys" by fastforce
  ultimately show ?case by simp
qed

lemma scan_lower_iff:
  "scan_lower bz ps i js \<longleftrightarrow> (\<exists>j\<in>set js. i \<noteq> j \<and> pair_stacked bz (ps ! i) (ps ! j))"
  by (induction js) auto

lemma scan_upper_iff:
  "scan_upper bz ps n is \<longleftrightarrow> (\<exists>i\<in>set is. scan_lower bz ps i (py_range n))"
  by (induction "is") auto

lemma scan_upper_range:
  "scan_upper bz ps n (py_range n) \<longleftrightarrow>
     (\<exists>i<nat n. \<exists>j<nat n. i \<noteq> j \<and> pair_stacked bz (ps ! i) (ps ! j))"
  by (auto simp: scan_upper_iff scan_lower_iff set_py_range)

lemma read_positions_length:
  "read_positions d n = Inr ps \<Longrightarrow> length ps = nat n"
  by (auto simp: read_positions_def length_py_range dest: traverse_Inr_length)

lemma read_positions_nth:
  assumes "read_positions d n = Inr ps" "i < nat n"
  shows "sensor_data d (block_name i @ ''_pos'') = Some (ps ! i)"
proof -
  have "sensor d (block_name (py_range n ! i) @ ''_pos'') = Inr (ps ! i)"
    using traverse_Inr_nth [OF assms(1) [unfolded read_positions_def]] assms(2)
    by (simp add: length_py_range)
  moreover have "py_range n ! i = i" using assms(2) by (simp add: py_range_def)
  ultimately show ?thesis by (auto simp: sensor_def split: option.splits)
qed

lemma joints_logged:
  assumes "blocks_defined d n"
  shows "\<exists>logged. traverse (\<lambda>i. joint3 d (block_name i)) (py_range n) = Inr logged"
proof (rule traverse_total)
  fix x assume "x \<in> set (py_range n)"
  then have "x < nat n" by (simp add: set_py_range)
  with assms show "\<exists>y. joint3 d (block_name x) = Inr y"
    by (auto simp: blocks_defined_def joint3_def split: option.splits)
qed

lemma read_positions_total:
  assumes "blocks_defined d n"
  shows "\<exists>ps. read_positions d n = Inr ps"
  unfolding read_positions_def
proof (rule traverse_total)
  fix x assume "x \<in> set (py_range n)"
  then have "x < nat n" by (simp add: set_py_range)
  with assms show "\<exists>y. sensor d (block_name x @ ''_pos'') = Inr y"
    by (auto simp: blocks_defined_def sensor_def split: option.splits)
qed

lemma is_success_value:
  assumes "read_positions d (num_blocks self) = Inr ps" "blocks_defined d (num_blocks self)"
  shows "is_success d self =
     Inr (\<exists>i<length ps. \<exists>j<length ps. i \<noteq> j \<and> pair_stacked (block_z self) (ps ! i) (ps ! j))"
proof -
  from joints_logged [OF assms(2)] obtain logged where
    "traverse (\<lambda>i. joint3 d (block_name i)) (py_range (num_blocks self)) = Inr logged" ..
  then show ?thesis
    using assms(1) read_positions_length [OF assms(1)]
    by (simp add: is_success_def scan_upper_range)
qed

lemma pair_stacked_needs_gap: "z_diff p q \<le> 0.03 \<Longrightarrow> \<not> pair_stacked bz p q"
  by (simp add: pair_stacked_def)

section \<open>The success detector\<close>

text \<open>
  Claim C7. Whenever the sensors and joints of the \<open>N\<close> blocks are defined, the success
  detector returns, and it returns true iff some ordered pair \<open>(i, j)\<close> of distinct
  indices has planar distance below 0.03, vertical difference above 0.03 and vertical
  difference within 0.05 of twice the half-height; the characterisation does not mention
  the order in which the pairs are visited. A pair with planar distance 0 and vertical
  difference 0 fails the pair test, two blocks at one position are not reported as
  stacked, and with a single block the detector returns false.
\<close>

theorem C7_success_iff:
  assumes "read_positions d (num_blocks self) = Inr ps"
    and "blocks_defined d (num_blocks self)"
  shows "is_success d self =
           Inr (\<exists>i<length ps. \<exists>j<length ps.
                  i \<noteq> j \<and> xy_dist (ps ! i) (ps ! j) < 0.030 \<and> z_diff (ps ! i) (ps ! j) > 0.03 \<and>
                  \<bar>z_diff (ps ! i) (ps ! j) - 2 * block_z self\<bar> < 0.05)
         \<and> length ps = nat (num_blocks self)
         \<and> (\<forall>i<length ps. sensor_data d (block_name i @ ''_pos'') = Some (ps ! i))
         \<and> (\<forall>i j. xy_dist (ps ! i) (ps ! j) = 0 \<and> z_diff (ps ! i) (ps ! j) = 0 \<longrightarrow>
               \<not> pair_stacked (block_z self) (ps ! i) (ps ! j))
         \<and> (num_blocks self = 2 \<and> ps ! 0 = ps ! 1 \<longrightarrow> is_success d self = Inr False)
         \<and> (num_blocks self = 1 \<longrightarrow> is_success d self = Inr False)"
proof -
  have v: "is_success d self =
     Inr (\<exists>i<length ps. \<exists>j<length ps. i \<noteq> j \<and> pair_stacked (block_z self) (ps ! i) (ps ! j))"
    by (rule is_success_value [OF assms])
  have len: "length ps = nat (num_blocks self)"
    by (rule read_positions_length [OF assms(1)])
  have a: "is_success d self =
           Inr (\<exists>i<length ps. \<exists>j<length ps.
                  i \<noteq> j \<and> xy_dist (ps ! i) (ps ! j) < 0.030 \<and> z_diff (ps ! i) (ps ! j) > 0.03 \<and>
                  \<bar>z_diff (ps ! i) (ps ! j) - 2 * block_z self\<bar> < 0.05)"
    unfolding v by (simp add: pair_stacked_def mult.commute)
  have b: "\<forall>i<length ps. sensor_data d (block_name i @ ''_pos'') = Some (ps ! i)"
    using read_positions_nth [OF assms(1)] len by simp
  have c: "\<forall>i j. xy_dist (ps ! i) (ps ! j) = 0 \<and> z_diff (ps ! i) (ps ! j) = 0 \<longrightarrow>
               \<not> pair_stacked (block_z self) (ps ! i) (ps ! j)"
    by (simp add: pair_stacked_def)
  have e: "num_blocks self = 2 \<and> ps ! 0 = ps ! 1 \<longrightarrow> is_success d self = Inr False"
  proof
    assume h: "num_blocks self = 2 \<and> ps ! 0 = ps ! 1"
    then have l2: "length ps = 2" using len by simp
    have "\<not> pair_stacked (block_z self) (ps ! i) (ps ! j)" if "i < 2" "j < 2" for i j
    proof -
      have "i = 0 \<or> i = 1" "j = 0 \<or> j = 1" using that by auto
      then have "ps ! i = ps ! j" using h by auto
      then show ?thesis by (simp add: pair_stacked_def z_diff_def)
    qed
    then show "is_success d self = Inr False" unfolding v l2 by simp
  qed
  have f: "num_blocks self = 1 \<longrightarrow> is_success d self = Inr False"
  proof
    assume "num_blocks self = 1"
    then have "length ps = 1" using len by simp
    then show "is_success d self = Inr False" unfolding v by auto
  qed
  from a len b c e f show ?thesis by blast
qed

lemma scene2_positions:
  "read_positions (scene2 q p1 p2) 2 = Inr [p1, p2]"
  by (simp add: read_positions_def py_range_2 block_name_0 block_name_1 sensor_def scene2_def)

lemma scene2_blocks_defined: "blocks_defined (scene2 q p1 p2) 2"
  unfolding blocks_defined_def
proof (intro allI impI)
  fix i :: nat
  assume "i < nat 2"
  then consider "i = 0" | "i = Suc 0" by fastforce
  then show "sensor_data (scene2 q p1 p2) (block_name i @ ''_pos'') \<noteq> None \<and>
             block_qpos (scene2 q p1 p2) (block_name i) \<noteq> None"
    by cases (simp_all add: block_name_0 block_name_1 scene2_def)
qed

theorem C7_success_iff_witness:
  "read_positions (scene2 1 (0.5, 0, 0.02) (0.5, 0, 0.06)) 2 = Inr [(0.5, 0, 0.02), (0.5, 0, 0.06)]
   \<and> blocks_defined (scene2 1 (0.5, 0, 0.02) (0.5, 0, 0.06)) 2
   \<and> is_success (scene2 1 (0.5, 0, 0.02) (0.5, 0, 0.06)) (fresh_env ''sparse'' 2 False) = Inr True
   \<and> is_success (scene2 1 (0.5, 0, 0.02) (0.5, 0, 0.02)) (fresh_env ''sparse'' 2 False) = Inr False"
proof -
  let ?e = "fresh_env ''sparse'' 2 False"
  let ?ps = "[(0.5, 0, 0.02), (0.5, 0, 0.06)] :: vec3 list"
  have n: "num_blocks ?e = 2" and bz: "block_z ?e = 0.02" by (simp_all add: fresh_env_def)
  have h1: "read_positions (scene2 1 p1 p2) (num_blocks ?e) = Inr [p1, p2]" for p1 p2
    unfolding n by (rule scene2_positions)
  have h2: "blocks_defined (scene2 1 p1 p2) (num_blocks ?e)" for p1 p2
    unfolding n by (rule scene2_blocks_defined)
  have "Suc 0 < length ?ps \<and> (\<exists>j<length ?ps. Suc 0 \<noteq> j \<and> xy_dist (?ps ! Suc 0) (?ps ! j) < 0.030
      \<and> z_diff (?ps ! Suc 0) (?ps ! j) > 0.03
      \<and> \<bar>z_diff (?ps ! Suc 0) (?ps ! j) - 2 * block_z ?e\<bar> < 0.05)"
    unfolding bz
    by (simp add: exI [of _ 0] xy_dist_def z_diff_def vx_def vy_def vz_def)
  then have ex: "\<exists>i<length ?ps. \<exists>j<length ?ps. i \<noteq> j \<and> xy_dist (?ps ! i) (?ps ! j) < 0.030
      \<and> z_diff (?ps ! i) (?ps ! j) > 0.03
      \<and> \<bar>z_diff (?ps ! i) (?ps ! j) - 2 * block_z ?e\<bar> < 0.05"
    by (rule exI [of _ "Suc 0"])
  have a: "is_success (scene2 1 (0.5, 0, 0.02) (0.5, 0, 0.06)) ?e = Inr True"
    using C7_success_iff [OF h1 h2, of "(0.5, 0, 0.02)" "(0.5, 0, 0.06)", THEN conjunct1] ex
    by simp
  have b: "is_success (scene2 1 (0.5, 0, 0.02) (0.5, 0, 0.02)) ?e = Inr False"
    using C7_success_iff [OF h1 h2, of "(0.5, 0, 0.02)" "(0.5, 0, 0.02)",
        THEN conjunct2, THEN conjunct2, THEN conjunct2, THEN conjunct2, THEN conjunct1] n
    by simp
  show ?thesis using a b scene2_positions scene2_blocks_defined by simp
qed

lemma perfect_pair:
  assumes "xy_dist p q = 0" "z_diff p q = 2 * bz"
  shows "pair_stacked bz p q \<longleftrightarrow> 0.015 < bz"
  using assms by (auto simp: pair_stacked_def)

text \<open>
  Claim C8. For two distinct blocks \<open>a\<close>, \<open>b\<close> with planar distance exactly 0 and \<open>a\<close>
  exactly twice the half-height above \<open>b\<close>, the success detector returns true as soon as
  one of the two orderings of the pair passes the pair test, whichever of the two indices is
  the smaller one. The ordering \<open>a\<close> over \<open>b\<close> passes the pair test exactly when the
  half-height is above 0.015, so for such blocks a perfect stack is always detected.
\<close>

theorem C8_perfect_stack:
  assumes "read_positions d (num_blocks self) = Inr ps"
    and "blocks_defined d (num_blocks self)"
    and "a < length ps" and "b < length ps" and "a \<noteq> b"
    and "xy_dist (ps ! a) (ps ! b) = 0"
    and "z_diff (ps ! a) (ps ! b) = 2 * block_z self"
  shows "(pair_stacked (block_z self) (ps ! a) (ps ! b) \<or>
          pair_stacked (block_z self) (ps ! b) (ps ! a) \<longrightarrow> is_success d self = Inr True)
       \<and> (pair_stacked (block_z self) (ps ! a) (ps ! b) \<longleftrightarrow> 0.015 < block_z self)
       \<and> (0.015 < block_z self \<longrightarrow> is_success d self = Inr True)"
proof -
  have v: "is_success d self =
     Inr (\<exists>i<length ps. \<exists>j<length ps. i \<noteq> j \<and> pair_stacked (block_z self) (ps ! i) (ps ! j))"
    by (rule is_success_value [OF assms(1,2)])
  have up: "pair_stacked (block_z self) (ps ! a) (ps ! b) \<Longrightarrow> is_success d self = Inr True"
    unfolding v using assms(3,4,5) by auto
  have down: "pair_stacked (block_z self) (ps ! b) (ps ! a) \<Longrightarrow> is_success d self = Inr True"
    unfolding v using assms(3,4,5) by auto
  have iff: "pair_stacked (block_z self) (ps ! a) (ps ! b) \<longleftrightarrow> 0.015 < block_z self"
    by (rule perfect_pair [OF assms(6,7)])
  from up down iff show ?thesis by blast
qed

theorem C8_perfect_stack_witness:
  "is_success (scene2 1 (0.5, 0, 0.02) (0.5, 0, 0.06)) (fresh_env ''sparse'' 2 False) = Inr True
   \<and> is_success (scene2 1 (0.5, 0, 0.06) (0.5, 0, 0.02)) (fresh_env ''sparse'' 2 False) = Inr True"
proof -
  let ?e = "fresh_env ''sparse'' 2 False"
  have n: "num_blocks ?e = 2" and bz: "block_z ?e = 0.02" by (simp_all add: fresh_env_def)
  have h1: "read_positions (scene2 1 p1 p2) (num_blocks ?e) = Inr [p1, p2]" for p1 p2
    unfolding n by (rule scene2_positions)
  have h2: "blocks_defined (scene2 1 p1 p2) (num_blocks ?e)" for p1 p2
    unfolding n by (rule scene2_blocks_defined)
  have a: "is_success (scene2 1 (0.5, 0, 0.02) (0.5, 0, 0.06)) ?e = Inr True"
    using C8_perfect_stack [OF h1 h2, of 1 "(0.5, 0, 0.02)" "(0.5, 0, 0.06)" 0]
    by (simp add: bz xy_dist_def z_diff_def vx_def vy_def vz_def)
  have b: "is_success (scene2 1 (0.5, 0, 0.06) (0.5, 0, 0.02)) ?e = Inr True"
    using C8_perfect_stack [OF h1 h2, of 0 "(0.5, 0, 0.06)" "(0.5, 0, 0.02)" 1]
    by (simp add: bz xy_dist_def z_diff_def vx_def vy_def vz_def)
  from a b show ?thesis by simp
qed

section \<open>Release detection\<close>

lemma tracker_Inr:
  assumes "was_block_just_released d self = Inr (released, self')"
  shows "\<exists>c. is_gripper_closed d = Inr c
           \<and> released = (prev_gripper_closed self = Some True \<and> \<not> c)
           \<and> self' = self\<lparr>tracker_calls := tracker_calls self + 1,
                            prev_gripper_closed := Some c\<rparr>"
  using assms
  by (auto simp: was_block_just_released_def Let_def split: option.splits sum.splits)

lemma tracker_value:
  assumes "is_gripper_closed d = Inr c"
  shows "was_block_just_released d self =
           Inr (prev_gripper_closed self = Some True \<and> \<not> c,
                self\<lparr>tracker_calls := tracker_calls self + 1, prev_gripper_closed := Some c\<rparr>)"
  using assms
  by (auto simp: was_block_just_released_def Let_def split: option.splits sum.splits)

lemma gripper_defined:
  "driver_qpos d ''left_driver_joint'' \<noteq> None \<Longrightarrow> is_gripper_closed d = Inr (gripper_closed d)"
  by (auto simp: is_gripper_closed_def gripper_closed_def split: option.splits)

lemma closed_to_open_False: "closed_to_open (False # bs) = closed_to_open bs"
  by (cases bs) simp_all

lemma closed_to_open_Cons2:
  "closed_to_open (a # b # bs) = (if a \<and> \<not> b then 1 else 0) + closed_to_open (b # bs)"
  by simp

lemma tracker_run_count:
  assumes "\<forall>d\<in>set ds. driver_qpos d ''left_driver_joint'' \<noteq> None"
  shows "\<exists>outs self'. tracker_run ds self = Inr (outs, self')
           \<and> length outs = length ds
           \<and> length (filter id outs) =
               closed_to_open ((case prev_gripper_closed self of None \<Rightarrow> [] | Some p \<Rightarrow> [p])
                               @ map gripper_closed ds)
           \<and> (prev_gripper_closed self \<noteq> Some True \<longrightarrow> outs \<noteq> [] \<longrightarrow> \<not> hd outs)"
  using assms
proof (induction ds arbitrary: self)
  case Nil
  then show ?case by (simp split: option.splits)
next
  case (Cons d ds)
  let ?c = "gripper_closed d"
  let ?self1 = "self\<lparr>tracker_calls := tracker_calls self + 1, prev_gripper_closed := Some ?c\<rparr>"
  let ?r = "prev_gripper_closed self = Some True \<and> \<not> ?c"
  from Cons.prems have g: "is_gripper_closed d = Inr ?c" by (simp add: gripper_defined)
  have t: "was_block_just_released d self = Inr (?r, ?self1)" by (rule tracker_value [OF g])
  from Cons.prems have "\<forall>d\<in>set ds. driver_qpos d ''left_driver_joint'' \<noteq> None" by simp
  from Cons.IH [OF this, of ?self1] obtain outs self' where
    ih: "tracker_run ds ?self1 = Inr (outs, self')
           \<and> length outs = length ds
           \<and> length (filter id outs) =
               closed_to_open ((case prev_gripper_closed ?self1 of None \<Rightarrow> [] | Some p \<Rightarrow> [p])
                               @ map gripper_closed ds)
           \<and> (prev_gripper_closed ?self1 \<noteq> Some True \<longrightarrow> outs \<noteq> [] \<longrightarrow> \<not> hd outs)"
    by blast
  from ih have run: "tracker_run ds ?self1 = Inr (outs, self')" by (rule conjunct1)
  from ih have len: "length outs = length ds" by simp
  from ih have cnt: "length (filter id outs) = closed_to_open (?c # map gripper_closed ds)"
    by simp
  have run': "tracker_run (d # ds) self = Inr (?r # outs, self')"
    using t run by simp
  have cnt': "length (filter id (?r # outs)) =
      closed_to_open ((case prev_gripper_closed self of None \<Rightarrow> [] | Some p \<Rightarrow> [p])
                      @ map gripper_closed (d # ds))"
  proof (cases "prev_gripper_closed self")
    case None
    then show ?thesis using cnt by simp
  next
    case (Some p)
    then show ?thesis using cnt by (cases p) simp_all
  qed
  show ?case
  proof (intro exI conjI)
    show "tracker_run (d # ds) self = Inr (?r # outs, self')" by (rule run')
    show "length (?r # outs) = length (d # ds)" using len by simp
    show "length (filter id (?r # outs)) =
      closed_to_open ((case prev_gripper_closed self of None \<Rightarrow> [] | Some p \<Rightarrow> [p])
                      @ map gripper_closed (d # ds))" by (rule cnt')
    show "prev_gripper_closed self \<noteq> Some True \<longrightarrow> ?r # outs \<noteq> [] \<longrightarrow> \<not> hd (?r # outs)"
      by simp
  qed
qed

lemma reset_prev:
  assumes "reset seed g d0 self0 = Inr (res, self, d1, g1)"
  shows "prev_gripper_closed self = Some False"
  using assms
  by (auto simp: reset_def Let_def split: sum.splits prod.splits)

text \<open>
  Claim C6. After a reset, feed the release detector the snapshots of any finite sequence
  of steps (the gripper joint being defined in each). It returns once per snapshot, the
  number of calls that return true equals the number of closed-to-open transitions in the
  sequence of gripper states, and the first call of the episode returns false.
\<close>

theorem C6_release_count:
  assumes "reset seed g d0 self0 = Inr (res, self, d1, g1)"
    and "\<forall>d\<in>set ds. driver_qpos d ''left_driver_joint'' \<noteq> None"
  shows "\<exists>outs self'. tracker_run ds self = Inr (outs, self')
           \<and> length outs = length ds
           \<and> length (filter id outs) = closed_to_open (map gripper_closed ds)
           \<and> (outs \<noteq> [] \<longrightarrow> \<not> hd outs)"
proof -
  have p: "prev_gripper_closed self = Some False" by (rule reset_prev [OF assms(1)])
  from tracker_run_count [OF assms(2), of self] obtain outs self' where
    r: "tracker_run ds self = Inr (outs, self')
           \<and> length outs = length ds
           \<and> length (filter id outs) =
               closed_to_open ((case prev_gripper_closed self of None \<Rightarrow> [] | Some p \<Rightarrow> [p])
                               @ map gripper_closed ds)
           \<and> (prev_gripper_closed self \<noteq> Some True \<longrightarrow> outs \<noteq> [] \<longrightarrow> \<not> hd outs)"
    by blast
  from r have "length (filter id outs) = closed_to_open (map gripper_closed ds)"
    unfolding p by (simp add: closed_to_open_False)
  moreover from r have "outs \<noteq> [] \<longrightarrow> \<not> hd outs" unfolding p by simp
  moreover from r have "tracker_run ds self = Inr (outs, self')" "length outs = length ds"
    by simp_all
  ultimately show ?thesis by blast
qed

lemma reset_scene2:
  "reset seed g (scene2 q p1 p2) (fresh_env rt 2 False) =
     Inr ((StateObs [] p1, Map.empty),
          (super_reset seed (fresh_env rt 2 False))
            \<lparr>z_inits := Some [vz p1, vz p1], prev_gripper_closed := Some False\<rparr>,
          (scene2 q p1 p2)\<lparr>block_qpos := [''block1'' \<mapsto> (0.5, 0, 0.02), ''block2'' \<mapsto> p2]\<rparr>,
          g)"
proof -
  have n: "num_blocks (super_reset seed (fresh_env rt 2 False)) = 2"
    and r: "random_block_position (super_reset seed (fresh_env rt 2 False)) = False"
    and b: "block_z (super_reset seed (fresh_env rt 2 False)) = 0.02"
    and i: "image_obs (super_reset seed (fresh_env rt 2 False)) = False"
    by (simp_all add: super_reset_def fresh_env_def split: option.splits)
  have m: "[''block2'' \<mapsto> p2, ''block1'' \<mapsto> v] = [''block1'' \<mapsto> v, ''block2'' \<mapsto> p2]"
    for v :: vec3
    by (rule ext) simp
  show ?thesis
    by (simp add: reset_def Let_def n r b i py_range_2 reset_name_0 reset_name_1
        read_z_inits_def sensor_def compute_observation_def scene2_def m)
qed


theorem C6_release_count_witness:
  "\<exists>outs self'.
     tracker_run [scene2 1 (0.5, 0, 0.02) (0.5, 0.1, 0.02), scene2 0 (0.5, 0, 0.02) (0.5, 0.1, 0.02),
                  scene2 1 (0.5, 0, 0.02) (0.5, 0.1, 0.02), scene2 0 (0.5, 0, 0.02) (0.5, 0.1, 0.02)]
       ((super_reset None (fresh_env ''sparse'' 2 False))
          \<lparr>z_inits := Some [vz (0.5, 0, 0.02), vz (0.5, 0, 0.02)],
           prev_gripper_closed := Some False\<rparr>) = Inr (outs, self')
     \<and> length outs = 4 \<and> length (filter id outs) = 2 \<and> \<not> hd outs"
proof -
  let ?c = "scene2 1 (0.5, 0, 0.02) (0.5, 0.1, 0.02)"
  let ?o = "scene2 0 (0.5, 0, 0.02) (0.5, 0.1, 0.02)"
  have closed: "gripper_closed ?c" and opened: "\<not> gripper_closed ?o"
    by (simp_all add: gripper_closed_def is_gripper_closed_def scene2_def)
  have cnt: "closed_to_open (map gripper_closed [?c, ?o, ?c, ?o]) = 2"
    using closed opened by simp
  have defd: "\<forall>d\<in>set [?c, ?o, ?c, ?o]. driver_qpos d ''left_driver_joint'' \<noteq> None"
    by (simp add: scene2_def)
  from C6_release_count [OF reset_scene2 [of None "\<lambda>n. 0" 1 "(0.5, 0, 0.02)" "(0.5, 0.1, 0.02)" "''sparse''"] defd]
  obtain outs self' where
    r: "tracker_run [?c, ?o, ?c, ?o]
          ((super_reset None (fresh_env ''sparse'' 2 False))
             \<lparr>z_inits := Some [vz (0.5, 0, 0.02), vz (0.5, 0, 0.02)],
              prev_gripper_closed := Some False\<rparr>) = Inr (outs, self')
        \<and> length outs = length [?c, ?o, ?c, ?o]
        \<and> length (filter id outs) = closed_to_open (map gripper_closed [?c, ?o, ?c, ?o])
        \<and> (outs \<noteq> [] \<longrightarrow> \<not> hd outs)"
    by blast
  from r have l: "length outs = 4" by simp
  then have "outs \<noteq> []" by auto
  with r have "\<not> hd outs" by blast
  moreover from r cnt have "length (filter id outs) = 2" by simp
  ultimately show ?thesis using r l by blast
qed

section \<open>Reward and step: what a returning call has computed\<close>

lemma is_success_cong:
  "num_blocks s = num_blocks s' \<Longrightarrow> block_z s = block_z s' \<Longrightarrow> is_success d s = is_success d s'"
  by (simp add: is_success_def cong: sum.case_cong)

lemma is_success_frame:
  "is_success d (self\<lparr>tracker_calls := a, prev_gripper_closed := b\<rparr>) = is_success d self"
  by (rule is_success_cong) simp_all

lemma compute_reward_sparse:
  assumes "reward_type self \<noteq> ''dense''" and "compute_reward d self = Inr (rew, self')"
  shows "\<exists>c. is_gripper_closed d = Inr c
           \<and> self' = self\<lparr>tracker_calls := tracker_calls self + 1, prev_gripper_closed := Some c\<rparr>
           \<and> rew = (if prev_gripper_closed self = Some True \<and> \<not> c \<and> is_success d self = Inr True
                    then 1 else 0)"
proof -
  from assms have e: "(case was_block_just_released d self of
        Inl e \<Rightarrow> Inl e
      | Inr (released, s1) \<Rightarrow>
          (case (if released then is_success d s1 else Inr False) of
             Inl e \<Rightarrow> Inl e | Inr True \<Rightarrow> Inr (1.0, s1) | Inr False \<Rightarrow> Inr (0.0, s1)))
      = Inr (rew, self')"
    by (simp add: compute_reward_def)
  then obtain released s1 where
    t: "was_block_just_released d self = Inr (released, s1)"
    by (cases "was_block_just_released d self") auto
  from e have k: "(case (if released then is_success d s1 else Inr False) of
           Inl e \<Rightarrow> Inl e | Inr True \<Rightarrow> Inr (1.0, s1) | Inr False \<Rightarrow> Inr (0.0, s1)) = Inr (rew, self')"
    unfolding t by simp
  from tracker_Inr [OF t] obtain c where
    c: "is_gripper_closed d = Inr c" and
    rel: "released = (prev_gripper_closed self = Some True \<and> \<not> c)" and
    s1: "s1 = self\<lparr>tracker_calls := tracker_calls self + 1, prev_gripper_closed := Some c\<rparr>"
    by blast
  have succ: "is_success d s1 = is_success d self" unfolding s1 by (rule is_success_frame)
  have "self' = s1 \<and> rew = (if released \<and> is_success d self = Inr True then 1 else 0)"
  proof (cases released)
    case False
    with k show ?thesis by simp
  next
    case True
    with k have k': "(case is_success d self of
           Inl e \<Rightarrow> Inl e | Inr True \<Rightarrow> Inr (1.0, s1) | Inr False \<Rightarrow> Inr (0.0, s1)) = Inr (rew, self')"
      unfolding succ by simp
    show ?thesis
    proof (cases "is_success d self")
      case (Inl e)
      with k' show ?thesis by simp
    next
      case (Inr b)
      with k' True show ?thesis by (cases b) simp_all
    qed
  qed
  then show ?thesis using c rel s1 by simp
qed

lemma compute_reward_dense:
  assumes "reward_type self = ''dense''" and "compute_reward d self = Inr (rew, self')"
  shows "\<exists>c lift stacked. is_gripper_closed d = Inr c
           \<and> self' = self\<lparr>tracker_calls := tracker_calls self + 1, prev_gripper_closed := Some c\<rparr>
           \<and> max_lift_reward d self = Inr lift
           \<and> is_success d self = Inr stacked
           \<and> rew = 0.3 * lift + 0.7 *
                 (if prev_gripper_closed self = Some True \<and> \<not> c \<and> stacked then 2.0
                  else if stacked then 0.5 else 0.0)"
proof -
  from assms have e: "(case max_lift_reward d self of
           Inl e \<Rightarrow> Inl e
         | Inr lift \<Rightarrow>
             (case was_block_just_released d self of
                Inl e \<Rightarrow> Inl e
              | Inr (released, s1) \<Rightarrow>
                  (case stack_reward d s1 released of
                     Inl e \<Rightarrow> Inl e
                   | Inr stack \<Rightarrow> Inr (0.3 * lift + 0.7 * stack, s1)))) = Inr (rew, self')"
    by (simp add: compute_reward_def)
  then obtain lift where l: "max_lift_reward d self = Inr lift"
    by (cases "max_lift_reward d self") auto
  from e obtain released s1 where t: "was_block_just_released d self = Inr (released, s1)"
    unfolding l by (cases "was_block_just_released d self") auto
  from e have e': "(case stack_reward d s1 released of
                     Inl e \<Rightarrow> Inl e
                   | Inr stack \<Rightarrow> Inr (0.3 * lift + 0.7 * stack, s1)) = Inr (rew, self')"
    unfolding l t by simp
  then obtain stack where k: "stack_reward d s1 released = Inr stack"
    by (cases "stack_reward d s1 released") auto
  from e' have rw: "rew = 0.3 * lift + 0.7 * stack" and s: "self' = s1"
    unfolding k by simp_all
  from tracker_Inr [OF t] obtain c where
    c: "is_gripper_closed d = Inr c" and
    rel: "released = (prev_gripper_closed self = Some True \<and> \<not> c)" and
    s1: "s1 = self\<lparr>tracker_calls := tracker_calls self + 1, prev_gripper_closed := Some c\<rparr>"
    by blast
  have succ: "is_success d s1 = is_success d self" unfolding s1 by (rule is_success_frame)
  from k obtain stacked where st: "is_success d self = Inr stacked"
    unfolding stack_reward_def succ
    by (cases "is_success d self"; cases released) simp_all
  from k have sv: "stack = (if released \<and> stacked then 2.0 else if stacked then 0.5 else 0.0)"
    unfolding stack_reward_def succ st
    by (cases stacked; cases released) simp_all
  show ?thesis
    apply (rule exI [of _ c], rule exI [of _ lift], rule exI [of _ stacked])
    using c s s1 l st rw sv rel apply simp
    done
qed

lemma compute_reward_frame:
  assumes "compute_reward d self = Inr (rew, self')"
  shows "\<exists>c. is_gripper_closed d = Inr c
           \<and> self' = self\<lparr>tracker_calls := tracker_calls self + 1, prev_gripper_closed := Some c\<rparr>"
proof (cases "reward_type self = ''dense''")
  case True
  from compute_reward_dense [OF True assms] show ?thesis by blast
next
  case False
  from compute_reward_sparse [OF False assms] show ?thesis by blast
qed

lemma step_Inr:
  assumes "step d self = Inr (r, self')"
  shows "\<exists>ob raw p. compute_observation d self = Inr ob
           \<and> compute_reward d self = Inr (reward r, self')
           \<and> is_success d self = Inr raw
           \<and> sensor_data d ''block1_pos'' = Some p
           \<and> r = \<lparr>obs = ob, reward = reward r,
                   terminated = ((if reward_type self = ''sparse'' then reward r = 1 else raw)
                                 \<or> exceeded_bounds p),
                   truncated = False,
                   info = [''succeed'' \<mapsto> (if reward_type self = ''sparse'' then reward r = 1 else raw)]\<rparr>"
proof -
  from assms obtain ob rew raw p where
    o: "compute_observation d self = Inr ob" and
    c: "compute_reward d self = Inr (rew, self')" and
    s: "is_success d self' = Inr raw" and
    b: "sensor d ''block1_pos'' = Inr p" and
    r: "r = \<lparr>obs = ob, reward = rew,
              terminated = ((if reward_type self' = ''sparse'' then rew = 1 else raw)
                            \<or> exceeded_bounds p),
              truncated = False,
              info = [''succeed'' \<mapsto> (if reward_type self' = ''sparse'' then rew = 1 else raw)]\<rparr>"
    by (auto simp: step_def Let_def split: sum.splits prod.splits)
  from compute_reward_frame [OF c] obtain cl where
    f: "self' = self\<lparr>tracker_calls := tracker_calls self + 1, prev_gripper_closed := Some cl\<rparr>"
    by blast
  have s': "is_success d self = Inr raw" using s unfolding f by (simp add: is_success_frame)
  have rt: "reward_type self' = reward_type self" unfolding f by simp
  have b': "sensor_data d ''block1_pos'' = Some p"
    using b by (auto simp: sensor_def split: option.splits)
  have rr: "reward r = rew" using r by simp
  show ?thesis using o c s' b' r unfolding rt rr by blast
qed

section \<open>Steps on concrete scenes\<close>

lemmas scene_eval =
  step_def compute_observation_def compute_reward_def stack_reward_def max_lift_reward_def
  was_block_just_released_def is_gripper_closed_def is_success_def read_positions_def
  sensor_def joint3_def py_range_2 block_name_0 block_name_1 scene2_def fresh_env_def
  episode_env_def exceeded_bounds_def SAMPLING_BOUNDS_def pair_stacked_def xy_dist_def
  z_diff_def vx_def vy_def vz_def clip_def enumerate_eq_zip Let_def

lemma step_held_sparse:
  "step (scene2 1 (0.5, 0, 0.02) (0.5, 0, 0.06)) (episode_env ''sparse'' True) =
     Inr (\<lparr>obs = StateObs [] (0.5, 0, 0.02), reward = 0, terminated = False, truncated = False,
           info = [''succeed'' \<mapsto> False]\<rparr>,
          (episode_env ''sparse'' True)\<lparr>tracker_calls := 1, prev_gripper_closed := Some True\<rparr>)"
  by (simp add: scene_eval)

lemma step_release_sparse:
  "step (scene2 0 (0.5, 0, 0.02) (0.5, 0, 0.06)) (episode_env ''sparse'' True) =
     Inr (\<lparr>obs = StateObs [] (0.5, 0, 0.02), reward = 1, terminated = True, truncated = False,
           info = [''succeed'' \<mapsto> True]\<rparr>,
          (episode_env ''sparse'' True)\<lparr>tracker_calls := 1, prev_gripper_closed := Some False\<rparr>)"
  by (simp add: scene_eval)

lemma step_lifted_dense:
  "step (scene2 1 (0.5, 0, 0.02) (0.5, 0.1, 0.06)) (episode_env ''dense'' True) =
     Inr (\<lparr>obs = StateObs [] (0.5, 0, 0.02), reward = 0.3, terminated = False, truncated = False,
           info = [''succeed'' \<mapsto> False]\<rparr>,
          (episode_env ''dense'' True)\<lparr>tracker_calls := 1, prev_gripper_closed := Some True\<rparr>)"
  by (simp add: scene_eval)

lemma step_drifted_dense:
  "step (scene2 1 (0.56, 0, 0.02) (0.5, 0.1, 0.02)) (episode_env ''dense'' True) =
     Inr (\<lparr>obs = StateObs [] (0.56, 0, 0.02), reward = 0, terminated = True, truncated = False,
           info = [''succeed'' \<mapsto> False]\<rparr>,
          (episode_env ''dense'' True)\<lparr>tracker_calls := 1, prev_gripper_closed := Some True\<rparr>)"
  by (simp add: scene_eval)

lemma is_success_held:
  "is_success (scene2 1 (0.5, 0, 0.02) (0.5, 0, 0.06)) (episode_env ''sparse'' True) = Inr True"
  by (simp add: scene_eval)

section \<open>What a step changes\<close>

text \<open>
  Claim C10. In either reward mode a returning step evaluates the release detector exactly
  once (the ghost counter grows by one), on the state the step started from: the release
  flag that enters the reward is computed from the previous gripper state as it was before
  the step, and only then is \<^verbatim>\<open>_prev_gripper_closed\<close> overwritten with the current
  gripper state. Nothing else of \<^verbatim>\<open>self\<close> changes: \<^verbatim>\<open>_z_inits\<close>, the reward
  mode, the number of blocks, the half-height and the remaining configuration are as before.
\<close>

theorem C10_step_frame:
  assumes "step d self = Inr (r, self')"
  shows "\<exists>c. is_gripper_closed d = Inr c
           \<and> was_block_just_released d self =
               Inr (prev_gripper_closed self = Some True \<and> \<not> c, self')
           \<and> self' = self\<lparr>tracker_calls := tracker_calls self + 1, prev_gripper_closed := Some c\<rparr>
           \<and> (reward_type self \<noteq> ''dense'' \<longrightarrow>
                 reward r = (if prev_gripper_closed self = Some True \<and> \<not> c \<and>
                                is_success d self = Inr True then 1 else 0))
           \<and> (reward_type self = ''dense'' \<longrightarrow>
                 (\<exists>lift stacked. max_lift_reward d self = Inr lift \<and> is_success d self = Inr stacked
                    \<and> reward r = 0.3 * lift + 0.7 *
                         (if prev_gripper_closed self = Some True \<and> \<not> c \<and> stacked then 2.0
                          else if stacked then 0.5 else 0.0)))
           \<and> tracker_calls self' = tracker_calls self + 1
           \<and> prev_gripper_closed self' = Some c
           \<and> z_inits self' = z_inits self
           \<and> reward_type self' = reward_type self
           \<and> num_blocks self' = num_blocks self
           \<and> block_z self' = block_z self
           \<and> random_block_position self' = random_block_position self
           \<and> image_obs self' = image_obs self
           \<and> np_random_seed self' = np_random_seed self"
proof -
  from step_Inr [OF assms] have cr: "compute_reward d self = Inr (reward r, self')" by blast
  from compute_reward_frame [OF cr] obtain c where
    c: "is_gripper_closed d = Inr c" and
    f: "self' = self\<lparr>tracker_calls := tracker_calls self + 1, prev_gripper_closed := Some c\<rparr>"
    by blast
  have t: "was_block_just_released d self =
             Inr (prev_gripper_closed self = Some True \<and> \<not> c, self')"
    unfolding f by (rule tracker_value [OF c])
  have sp: "reward_type self \<noteq> ''dense'' \<longrightarrow>
              reward r = (if prev_gripper_closed self = Some True \<and> \<not> c \<and>
                             is_success d self = Inr True then 1 else 0)"
  proof
    assume "reward_type self \<noteq> ''dense''"
    from compute_reward_sparse [OF this cr] c show
      "reward r = (if prev_gripper_closed self = Some True \<and> \<not> c \<and>
                      is_success d self = Inr True then 1 else 0)"
      by auto
  qed
  have de: "reward_type self = ''dense'' \<longrightarrow>
              (\<exists>lift stacked. max_lift_reward d self = Inr lift \<and> is_success d self = Inr stacked
                 \<and> reward r = 0.3 * lift + 0.7 *
                      (if prev_gripper_closed self = Some True \<and> \<not> c \<and> stacked then 2.0
                       else if stacked then 0.5 else 0.0))"
  proof
    assume "reward_type self = ''dense''"
    from compute_reward_dense [OF this cr] c show
      "\<exists>lift stacked. max_lift_reward d self = Inr lift \<and> is_success d self = Inr stacked
         \<and> reward r = 0.3 * lift + 0.7 *
              (if prev_gripper_closed self = Some True \<and> \<not> c \<and> stacked then 2.0
               else if stacked then 0.5 else 0.0)"
      by auto
  qed
  have fr: "tracker_calls self' = tracker_calls self + 1"
    "prev_gripper_closed self' = Some c"
    "z_inits self' = z_inits self"
    "reward_type self' = reward_type self"
    "num_blocks self' = num_blocks self"
    "block_z self' = block_z self"
    "random_block_position self' = random_block_position self"
    "image_obs self' = image_obs self"
    "np_random_seed self' = np_random_seed self"
    unfolding f by simp_all
  show ?thesis
    apply (rule exI [of _ c])
    apply (intro conjI)
    apply (rule c, rule t, rule f, rule sp, rule de)
    apply (rule fr)+
    done
qed

theorem C10_step_frame_witness:
  "was_block_just_released (scene2 0 (0.5, 0, 0.02) (0.5, 0, 0.06)) (episode_env ''sparse'' True) =
     Inr (True, (episode_env ''sparse'' True)\<lparr>tracker_calls := 1, prev_gripper_closed := Some False\<rparr>)
   \<and> was_block_just_released (scene2 1 (0.5, 0, 0.02) (0.5, 0.1, 0.06)) (episode_env ''dense'' True) =
     Inr (False, (episode_env ''dense'' True)\<lparr>tracker_calls := 1, prev_gripper_closed := Some True\<rparr>)"
proof -
  let ?so = "scene2 0 (0.5, 0, 0.02) (0.5, 0, 0.06)"
  let ?sc = "scene2 1 (0.5, 0, 0.02) (0.5, 0.1, 0.06)"
  have o: "is_gripper_closed ?so = Inr False"
    and c: "is_gripper_closed ?sc = Inr True"
    by (simp_all add: is_gripper_closed_def scene2_def)
  have p: "prev_gripper_closed (episode_env rt True) = Some True" for rt
    by (simp add: episode_env_def)
  from C10_step_frame [OF step_release_sparse] obtain c1 where
    c1: "is_gripper_closed ?so = Inr c1" and
    t1: "was_block_just_released ?so (episode_env ''sparse'' True) =
           Inr (prev_gripper_closed (episode_env ''sparse'' True) = Some True \<and> \<not> c1,
                (episode_env ''sparse'' True)\<lparr>tracker_calls := 1, prev_gripper_closed := Some False\<rparr>)"
    by (elim exE conjE) (rule that)
  from c1 o have "c1 = False" by simp
  with t1 have a: "was_block_just_released ?so (episode_env ''sparse'' True) =
     Inr (True, (episode_env ''sparse'' True)\<lparr>tracker_calls := 1, prev_gripper_closed := Some False\<rparr>)"
    by (simp add: p)
  from C10_step_frame [OF step_lifted_dense] obtain c2 where
    c2: "is_gripper_closed ?sc = Inr c2" and
    t2: "was_block_just_released ?sc (episode_env ''dense'' True) =
           Inr (prev_gripper_closed (episode_env ''dense'' True) = Some True \<and> \<not> c2,
                (episode_env ''dense'' True)\<lparr>tracker_calls := 1, prev_gripper_closed := Some True\<rparr>)"
    by (elim exE conjE) (rule that)
  from c2 c have "c2 = True" by simp
  with t2 have b: "was_block_just_released ?sc (episode_env ''dense'' True) =
     Inr (False, (episode_env ''dense'' True)\<lparr>tracker_calls := 1, prev_gripper_closed := Some True\<rparr>)"
    by (simp add: p)
  from a b show ?thesis by (rule conjI)
qed

section \<open>The success flag of the info dictionary\<close>

text \<open>
  Claim C1 says that \<^verbatim>\<open>info["succeed"]\<close> is the raw result of the success detector in
  every reward mode. In sparse mode it is not: with the blocks stacked and the gripper
  still closed the detector returns true and the step reports \<^verbatim>\<open>succeed\<close> false.
\<close>

theorem C1_info_succeed_counterexample:
  "is_success (scene2 1 (0.5, 0, 0.02) (0.5, 0, 0.06)) (episode_env ''sparse'' True) = Inr True
   \<and> step (scene2 1 (0.5, 0, 0.02) (0.5, 0, 0.06)) (episode_env ''sparse'' True) =
     Inr (\<lparr>obs = StateObs [] (0.5, 0, 0.02), reward = 0, terminated = False, truncated = False,
           info = [''succeed'' \<mapsto> False]\<rparr>,
          (episode_env ''sparse'' True)\<lparr>tracker_calls := 1, prev_gripper_closed := Some True\<rparr>)"
  using is_success_held step_held_sparse by simp

text \<open>
  Claim C1, amended. A returning step reports under \<^verbatim>\<open>succeed\<close>, and under no other
  key, the raw result of the success detector whenever the reward mode is not
  \<^verbatim>\<open>"sparse"\<close>; in sparse mode it reports whether the reward equals 1, which holds
  exactly when the gripper was closed before the step, is open now, and the detector
  returns true.
\<close>

theorem C1_info_succeed:
  assumes "step d self = Inr (r, self')"
  shows "\<exists>raw c. is_success d self = Inr raw \<and> is_gripper_closed d = Inr c
           \<and> info r = [''succeed'' \<mapsto> (if reward_type self = ''sparse'' then reward r = 1 else raw)]
           \<and> (reward_type self = ''sparse'' \<longrightarrow>
                 (reward r = 1 \<longleftrightarrow> prev_gripper_closed self = Some True \<and> \<not> c \<and> raw))"
proof -
  from step_Inr [OF assms] obtain ob raw p where
    cr: "compute_reward d self = Inr (reward r, self')" and
    raw: "is_success d self = Inr raw" and
    r: "r = \<lparr>obs = ob, reward = reward r,
              terminated = ((if reward_type self = ''sparse'' then reward r = 1 else raw)
                            \<or> exceeded_bounds p),
              truncated = False,
              info = [''succeed'' \<mapsto> (if reward_type self = ''sparse'' then reward r = 1 else raw)]\<rparr>"
    by blast
  from compute_reward_frame [OF cr] obtain c where c: "is_gripper_closed d = Inr c" by blast
  have i: "info r = [''succeed'' \<mapsto> (if reward_type self = ''sparse'' then reward r = 1 else raw)]"
    by (subst r) simp
  have s: "reward_type self = ''sparse'' \<longrightarrow>
             (reward r = 1 \<longleftrightarrow> prev_gripper_closed self = Some True \<and> \<not> c \<and> raw)"
  proof
    assume "reward_type self = ''sparse''"
    then have "reward_type self \<noteq> ''dense''" by simp
    from compute_reward_sparse [OF this cr] c raw
    show "reward r = 1 \<longleftrightarrow> prev_gripper_closed self = Some True \<and> \<not> c \<and> raw"
      by (auto split: if_splits)
  qed
  from raw c i s show ?thesis by blast
qed

theorem C1_info_succeed_witness:
  "info (fst (projr (step (scene2 0 (0.5, 0, 0.02) (0.5, 0, 0.06)) (episode_env ''sparse'' True))))
     ''succeed'' = Some True
   \<and> info (fst (projr (step (scene2 1 (0.5, 0, 0.02) (0.5, 0.1, 0.06)) (episode_env ''dense'' True))))
     ''succeed'' = Some False"
proof -
  let ?so = "scene2 0 (0.5, 0, 0.02) (0.5, 0, 0.06)"
  let ?sc = "scene2 1 (0.5, 0, 0.02) (0.5, 0.1, 0.06)"
  let ?r1 = "\<lparr>obs = StateObs [] (0.5, 0, 0.02), reward = 1, terminated = True, truncated = False,
           info = [''succeed'' \<mapsto> True]\<rparr>"
  let ?r2 = "\<lparr>obs = StateObs [] (0.5, 0, 0.02), reward = 0.3, terminated = False, truncated = False,
           info = [''succeed'' \<mapsto> False]\<rparr>"
  have rs: "reward_type (episode_env ''sparse'' True) = ''sparse''"
    and rd: "reward_type (episode_env ''dense'' True) \<noteq> ''sparse''"
    by (simp_all add: episode_env_def fresh_env_def)
  have raw: "is_success ?sc (episode_env ''dense'' True) = Inr False"
    by (simp add: scene_eval)
  from C1_info_succeed [OF step_release_sparse] obtain raw1 where
    i1: "info ?r1 = [''succeed'' \<mapsto> (if reward_type (episode_env ''sparse'' True) = ''sparse''
                                         then reward ?r1 = 1 else raw1)]"
    by (elim exE conjE) (rule that)
  from C1_info_succeed [OF step_lifted_dense] obtain raw2 where
    s2: "is_success ?sc (episode_env ''dense'' True) = Inr raw2" and
    i2: "info ?r2 = [''succeed'' \<mapsto> (if reward_type (episode_env ''dense'' True) = ''sparse''
                                         then reward ?r2 = 1 else raw2)]"
    by (elim exE conjE) (rule that)
  from s2 raw have r2: "raw2 = False" by simp
  have a: "info (fst (projr (step ?so (episode_env ''sparse'' True)))) = [''succeed'' \<mapsto> True]"
    unfolding step_release_sparse using i1 rs by simp
  have b: "info (fst (projr (step ?sc (episode_env ''dense'' True)))) = [''succeed'' \<mapsto> False]"
    unfolding step_lifted_dense using i2 rd r2 by simp
  show ?thesis unfolding a b by simp
qed

section \<open>Termination\<close>

lemma exceeded_bounds_iff:
  "exceeded_bounds (x, y, z) \<longleftrightarrow> (x < 0.25 \<or> 0.55 < x) \<or> (y < - 0.2 \<or> 0.2 < y)"
  by (auto simp: exceeded_bounds_def SAMPLING_BOUNDS_def vx_def vy_def)

text \<open>
  Claim C5. For a returning step, \<^verbatim>\<open>terminated\<close> is success or exceeded-bounds, where
  success is the raw result of the success detector, in sparse mode together with the reward
  being 1; exceeded-bounds holds iff the x or the y coordinate of the sensor of
  \<^verbatim>\<open>block1\<close> lies outside the sampling bounds \<open>[0.3, 0.5] \<times> [-0.15, 0.15]\<close> widened
  by 0.05 on every side. In sparse mode a step on which the gripper is closed terminates
  only by exceeded bounds, and \<^verbatim>\<open>truncated\<close> is always false.
\<close>

theorem C5_termination:
  assumes "step d self = Inr (r, self')"
  shows "\<exists>raw x y z. is_success d self = Inr raw
           \<and> sensor_data d ''block1_pos'' = Some (x, y, z)
           \<and> terminated r =
                ((if reward_type self = ''sparse'' then raw \<and> reward r = 1 else raw)
                 \<or> ((x < 0.3 - 0.05 \<or> 0.5 + 0.05 < x) \<or> (y < - 0.15 - 0.05 \<or> 0.15 + 0.05 < y)))
           \<and> (reward_type self = ''sparse'' \<and> is_gripper_closed d = Inr True \<longrightarrow>
                terminated r =
                  ((x < 0.3 - 0.05 \<or> 0.5 + 0.05 < x) \<or> (y < - 0.15 - 0.05 \<or> 0.15 + 0.05 < y)))
           \<and> truncated r = False"
proof -
  from step_Inr [OF assms] obtain ob raw p where
    cr: "compute_reward d self = Inr (reward r, self')" and
    raw: "is_success d self = Inr raw" and
    p: "sensor_data d ''block1_pos'' = Some p" and
    r: "r = \<lparr>obs = ob, reward = reward r,
              terminated = ((if reward_type self = ''sparse'' then reward r = 1 else raw)
                            \<or> exceeded_bounds p),
              truncated = False,
              info = [''succeed'' \<mapsto> (if reward_type self = ''sparse'' then reward r = 1 else raw)]\<rparr>"
    by blast
  obtain x y z where xyz: "p = (x, y, z)" by (cases p) auto
  let ?out = "(x < 0.3 - 0.05 \<or> 0.5 + 0.05 < x) \<or> (y < - 0.15 - 0.05 \<or> 0.15 + 0.05 < y)"
  have ex: "exceeded_bounds p = ?out" unfolding xyz exceeded_bounds_iff by simp
  have t: "terminated r = ((if reward_type self = ''sparse'' then reward r = 1 else raw)
                            \<or> exceeded_bounds p)"
    by (subst r) simp
  have tr: "truncated r = False" by (subst r) simp
  have sp: "reward r = (if prev_gripper_closed self = Some True \<and> is_gripper_closed d = Inr False
                           \<and> raw then 1 else 0)"
    if "reward_type self = ''sparse''"
  proof -
    from that have "reward_type self \<noteq> ''dense''" by simp
    from compute_reward_sparse [OF this cr] raw show ?thesis by auto
  qed
  have a: "terminated r = ((if reward_type self = ''sparse'' then raw \<and> reward r = 1 else raw) \<or> ?out)"
    unfolding t ex using sp by auto
  have b: "reward_type self = ''sparse'' \<and> is_gripper_closed d = Inr True \<longrightarrow> terminated r = ?out"
    unfolding t ex using sp by auto
  show ?thesis
    apply (rule exI [of _ raw], rule exI [of _ x], rule exI [of _ y], rule exI [of _ z])
    apply (intro conjI)
        apply (rule raw)
       apply (simp add: p xyz)
      apply (rule a)
     apply (rule b)
    apply (rule tr)
    done
qed

theorem C5_termination_witness:
  "terminated (fst (projr (step (scene2 0 (0.5, 0, 0.02) (0.5, 0, 0.06)) (episode_env ''sparse'' True))))
   \<and> \<not> terminated (fst (projr (step (scene2 1 (0.5, 0, 0.02) (0.5, 0, 0.06)) (episode_env ''sparse'' True))))
   \<and> terminated (fst (projr (step (scene2 1 (0.56, 0, 0.02) (0.5, 0.1, 0.02)) (episode_env ''dense'' True))))
   \<and> \<not> truncated (fst (projr (step (scene2 1 (0.56, 0, 0.02) (0.5, 0.1, 0.02)) (episode_env ''dense'' True))))"
proof -
  let ?r1 = "\<lparr>obs = StateObs [] (0.5, 0, 0.02), reward = 1, terminated = True, truncated = False,
           info = [''succeed'' \<mapsto> True]\<rparr>"
  let ?r2 = "\<lparr>obs = StateObs [] (0.5, 0, 0.02), reward = 0, terminated = False, truncated = False,
           info = [''succeed'' \<mapsto> False]\<rparr>"
  let ?r3 = "\<lparr>obs = StateObs [] (0.56, 0, 0.02), reward = 0, terminated = True, truncated = False,
           info = [''succeed'' \<mapsto> False]\<rparr>"
  have rs: "reward_type (episode_env ''sparse'' True) = ''sparse''"
    and rd: "reward_type (episode_env ''dense'' True) \<noteq> ''sparse''"
    by (simp_all add: episode_env_def fresh_env_def)
  have s1: "is_success (scene2 0 (0.5, 0, 0.02) (0.5, 0, 0.06)) (episode_env ''sparse'' True) = Inr True"
    and s3: "is_success (scene2 1 (0.56, 0, 0.02) (0.5, 0.1, 0.02)) (episode_env ''dense'' True) = Inr False"
    by (simp_all add: scene_eval)
  have g2: "is_gripper_closed (scene2 1 (0.5, 0, 0.02) (0.5, 0, 0.06)) = Inr True"
    by (simp add: is_gripper_closed_def scene2_def)
  have b1: "sensor_data (scene2 q (0.5, 0, 0.02) p2) ''block1_pos'' = Some (0.5, 0, 0.02)" for q p2
    by (simp add: scene2_def)
  have b3: "sensor_data (scene2 q (0.56, 0, 0.02) p2) ''block1_pos'' = Some (0.56, 0, 0.02)" for q p2
    by (simp add: scene2_def)
  from C5_termination [OF step_release_sparse] obtain raw1 x1 y1 z1 where
    "is_success (scene2 0 (0.5, 0, 0.02) (0.5, 0, 0.06)) (episode_env ''sparse'' True) = Inr raw1"
    "sensor_data (scene2 0 (0.5, 0, 0.02) (0.5, 0, 0.06)) ''block1_pos'' = Some (x1, y1, z1)"
    "terminated ?r1 =
       ((if reward_type (episode_env ''sparse'' True) = ''sparse'' then raw1 \<and> reward ?r1 = 1 else raw1)
        \<or> ((x1 < 0.3 - 0.05 \<or> 0.5 + 0.05 < x1) \<or> (y1 < - 0.15 - 0.05 \<or> 0.15 + 0.05 < y1)))"
    by (elim exE conjE) (rule that)
  then have a: "terminated ?r1" by (simp add: s1 b1 rs)
  from C5_termination [OF step_held_sparse] obtain x2 y2 z2 where
    "sensor_data (scene2 1 (0.5, 0, 0.02) (0.5, 0, 0.06)) ''block1_pos'' = Some (x2, y2, z2)"
    "reward_type (episode_env ''sparse'' True) = ''sparse'' \<and>
       is_gripper_closed (scene2 1 (0.5, 0, 0.02) (0.5, 0, 0.06)) = Inr True \<longrightarrow>
       terminated ?r2 =
         ((x2 < 0.3 - 0.05 \<or> 0.5 + 0.05 < x2) \<or> (y2 < - 0.15 - 0.05 \<or> 0.15 + 0.05 < y2))"
    by (elim exE conjE) (rule that)
  then have b: "\<not> terminated ?r2" by (simp add: b1 rs g2)
  from C5_termination [OF step_drifted_dense] obtain raw3 x3 y3 z3 where
    "is_success (scene2 1 (0.56, 0, 0.02) (0.5, 0.1, 0.02)) (episode_env ''dense'' True) = Inr raw3"
    "sensor_data (scene2 1 (0.56, 0, 0.02) (0.5, 0.1, 0.02)) ''block1_pos'' = Some (x3, y3, z3)"
    "terminated ?r3 =
       ((if reward_type (episode_env ''dense'' True) = ''sparse'' then raw3 \<and> reward ?r3 = 1 else raw3)
        \<or> ((x3 < 0.3 - 0.05 \<or> 0.5 + 0.05 < x3) \<or> (y3 < - 0.15 - 0.05 \<or> 0.15 + 0.05 < y3)))"
    "truncated ?r3 = False"
    by (elim exE conjE) (rule that)
  then have c: "terminated ?r3" and d: "\<not> truncated ?r3" by (simp_all add: s3 b3 rd)
  show ?thesis
    unfolding step_release_sparse step_held_sparse step_drifted_dense
    using a b c d by simp
qed

section \<open>The lift term of the dense reward\<close>

lemma clip_unit_bounds: "0 \<le> clip x 0 1" "clip x 0 1 \<le> 1"
  by (simp_all add: clip_def)

lemma clip_mono: "x \<le> y \<Longrightarrow> clip x lo hi \<le> clip y lo hi"
  by (auto simp: clip_def min_def max_def)

lemma clip_top: "1 \<le> x \<Longrightarrow> clip x 0 1 = 1"
  by (simp add: clip_def)

lemma Max_insert_max:
  assumes "finite A"
  shows "Max (insert (max a b) A) = Max (insert a (insert b A))"
proof (cases "A = {}")
  case True
  then show ?thesis by (simp add: max.commute)
next
  case False
  with assms show ?thesis by (simp add: max.assoc)
qed

lemma lift_loop_Max:
  assumes "\<forall>(i, p)\<in>set xs. i < length zs"
  shows "lift_loop bz (Some zs) m xs =
           Inr (Max (insert m ((\<lambda>(i, p). clip ((vz p - zs ! i) / (bz * 2)) 0 1) ` set xs)))"
  using assms
proof (induction xs arbitrary: m)
  case Nil
  then show ?case by simp
next
  case (Cons x xs)
  obtain i p where x: "x = (i, p)" by (cases x)
  let ?f = "\<lambda>(i, p). clip ((vz p - zs ! i) / (bz * 2)) 0 1"
  from Cons.prems x have i: "i < length zs" and rest: "\<forall>(i, p)\<in>set xs. i < length zs"
    by auto
  have "lift_loop bz (Some zs) m (x # xs) =
          lift_loop bz (Some zs) (max m (clip ((vz p - zs ! i) / (bz * 2)) 0 1)) xs"
    using i by (simp add: x Let_def)
  also have "\<dots> = Inr (Max (insert (max m (?f (i, p))) (?f ` set xs)))"
    using Cons.IH [OF rest] by simp
  also have "Max (insert (max m (?f (i, p))) (?f ` set xs)) =
             Max (insert m (insert (?f (i, p)) (?f ` set xs)))"
    by (rule Max_insert_max) simp
  finally show ?case by (simp add: x)
qed

lemma lift_single:
  assumes len: "length ps \<le> length zs" and k: "k < length ps"
    and base: "\<forall>i<length ps. i \<noteq> k \<longrightarrow> vz (ps ! i) = zs ! i"
  shows "lift_loop bz (Some zs) 0 (enumerate 0 ps) =
           Inr (clip ((vz (ps ! k) - zs ! k) / (bz * 2)) 0 1)"
proof -
  let ?f = "\<lambda>(i, p). clip ((vz p - zs ! i) / (bz * 2)) 0 1"
  let ?A = "insert 0 (?f ` set (enumerate 0 ps))"
  let ?c = "clip ((vz (ps ! k) - zs ! k) / (bz * 2)) 0 1"
  have rng: "\<forall>(i, p)\<in>set (enumerate 0 ps). i < length zs"
    using len by (auto simp: in_set_enumerate_eq)
  have mem: "(k, ps ! k) \<in> set (enumerate 0 ps)"
    using k by (simp add: in_set_enumerate_eq)
  have "Max ?A = ?c"
  proof (rule Max_eqI)
    show "finite ?A" by simp
    show "?c \<in> ?A" using mem by force
    fix y assume "y \<in> ?A"
    then consider "y = 0" | i p where "(i, p) \<in> set (enumerate 0 ps)" "y = ?f (i, p)"
      by auto
    then show "y \<le> ?c"
    proof cases
      case 1
      then show ?thesis by (simp add: clip_unit_bounds)
    next
      case 2
      then have ip: "i < length ps" "p = ps ! i" by (auto simp: in_set_enumerate_eq)
      show ?thesis
      proof (cases "i = k")
        case True
        with 2 ip show ?thesis by simp
      next
        case False
        with base ip have "vz p = zs ! i" by simp
        with 2 have "y = 0" by (simp add: clip_def)
        then show ?thesis by (simp add: clip_unit_bounds)
      qed
    qed
  qed
  with lift_loop_Max [OF rng, of bz 0] show ?thesis by simp
qed

text \<open>
  Claim C9. Let the half-height be positive and all blocks but block \<open>k\<close> be at their
  baseline heights. Then the dense-mode lift term is the clipped normalised lift of block
  \<open>k\<close>; it does not decrease when block \<open>k\<close> is higher, it is 1 for every height at
  or above baseline plus twice the half-height, and 0 at or below the baseline.
\<close>

theorem C9_lift_term:
  assumes bz: "0 < block_z self"
    and zs: "z_inits self = Some zs" "length zs = nat (num_blocks self)"
    and p1: "read_positions d1 (num_blocks self) = Inr ps1"
    and p2: "read_positions d2 (num_blocks self) = Inr ps2"
    and k: "k < nat (num_blocks self)"
    and others: "\<forall>i<nat (num_blocks self). i \<noteq> k \<longrightarrow> vz (ps1 ! i) = zs ! i \<and> vz (ps2 ! i) = zs ! i"
    and le: "vz (ps1 ! k) \<le> vz (ps2 ! k)"
  shows "\<exists>l1 l2. max_lift_reward d1 self = Inr l1 \<and> max_lift_reward d2 self = Inr l2
           \<and> l1 \<le> l2
           \<and> l1 = clip ((vz (ps1 ! k) - zs ! k) / (block_z self * 2)) 0 1
           \<and> l2 = clip ((vz (ps2 ! k) - zs ! k) / (block_z self * 2)) 0 1
           \<and> (zs ! k + 2 * block_z self \<le> vz (ps1 ! k) \<longrightarrow> l1 = 1 \<and> l2 = 1)
           \<and> (vz (ps2 ! k) \<le> zs ! k \<longrightarrow> l1 = 0 \<and> l2 = 0)"
proof -
  let ?l1 = "clip ((vz (ps1 ! k) - zs ! k) / (block_z self * 2)) 0 1"
  let ?l2 = "clip ((vz (ps2 ! k) - zs ! k) / (block_z self * 2)) 0 1"
  have n1: "length ps1 = nat (num_blocks self)" by (rule read_positions_length [OF p1])
  have n2: "length ps2 = nat (num_blocks self)" by (rule read_positions_length [OF p2])
  have m1: "max_lift_reward d1 self = Inr ?l1"
    unfolding max_lift_reward_def p1 zs(1)
    using lift_single [of ps1 zs k "block_z self"] n1 zs(2) k others by simp
  have m2: "max_lift_reward d2 self = Inr ?l2"
    unfolding max_lift_reward_def p2 zs(1)
    using lift_single [of ps2 zs k "block_z self"] n2 zs(2) k others by simp
  have d: "(vz (ps1 ! k) - zs ! k) / (block_z self * 2) \<le> (vz (ps2 ! k) - zs ! k) / (block_z self * 2)"
    using le bz by (simp add: divide_right_mono)
  have mono: "?l1 \<le> ?l2" by (rule clip_mono [OF d])
  have top: "zs ! k + 2 * block_z self \<le> vz (ps1 ! k) \<longrightarrow> ?l1 = 1 \<and> ?l2 = 1"
  proof
    assume a: "zs ! k + 2 * block_z self \<le> vz (ps1 ! k)"
    with bz have "1 \<le> (vz (ps1 ! k) - zs ! k) / (block_z self * 2)" by simp
    moreover from this d have "1 \<le> (vz (ps2 ! k) - zs ! k) / (block_z self * 2)" by simp
    ultimately show "?l1 = 1 \<and> ?l2 = 1" by (simp add: clip_top)
  qed
  have bot: "vz (ps2 ! k) \<le> zs ! k \<longrightarrow> ?l1 = 0 \<and> ?l2 = 0"
  proof
    assume a: "vz (ps2 ! k) \<le> zs ! k"
    with bz have "(vz (ps2 ! k) - zs ! k) / (block_z self * 2) \<le> 0"
      by (simp add: divide_le_0_iff)
    moreover from this d have "(vz (ps1 ! k) - zs ! k) / (block_z self * 2) \<le> 0" by simp
    ultimately show "?l1 = 0 \<and> ?l2 = 0" by (simp add: clip_def)
  qed
  show ?thesis
    apply (rule exI [of _ ?l1], rule exI [of _ ?l2])
    apply (intro conjI)
          apply (rule m1)
         apply (rule m2)
        apply (rule mono)
       apply (rule refl)
      apply (rule refl)
     apply (rule top)
    apply (rule bot)
    done
qed

theorem C9_lift_term_witness:
  "max_lift_reward (scene2 1 (0.5, 0, 0.02) (0.5, 0.1, 0.04)) (episode_env ''dense'' True) = Inr 0.5
   \<and> max_lift_reward (scene2 1 (0.5, 0, 0.02) (0.5, 0.1, 0.06)) (episode_env ''dense'' True) = Inr 1
   \<and> max_lift_reward (scene2 1 (0.5, 0, 0.02) (0.5, 0.1, 0.09)) (episode_env ''dense'' True) = Inr 1"
proof -
  let ?e = "episode_env ''dense'' True"
  let ?p = "(0.5, 0, 0.02) :: vec3"
  have bz: "0 < block_z ?e" and bv: "block_z ?e = 0.02"
    and zs: "z_inits ?e = Some [0.02, 0.02]"
    and n: "num_blocks ?e = 2"
    by (simp_all add: episode_env_def fresh_env_def)
  have len: "length [0.02, 0.02 :: real] = nat (num_blocks ?e)" unfolding n by simp
  have rp: "read_positions (scene2 1 ?p q) (num_blocks ?e) = Inr [?p, q]" for q
    unfolding n by (rule scene2_positions)
  have k: "Suc 0 < nat (num_blocks ?e)" unfolding n by simp
  have others: "\<forall>i<nat (num_blocks ?e). i \<noteq> Suc 0 \<longrightarrow>
      vz ([?p, q1] ! i) = [0.02, 0.02] ! i \<and> vz ([?p, q2] ! i) = [0.02, 0.02] ! i" for q1 q2 :: vec3
    unfolding n by (auto simp: vz_def less_Suc_eq eval_nat_numeral)
  have le1: "vz ([?p, (0.5, 0.1, 0.04)] ! Suc 0) \<le> vz ([?p, (0.5, 0.1, 0.06)] ! Suc 0)"
    and le2: "vz ([?p, (0.5, 0.1, 0.06)] ! Suc 0) \<le> vz ([?p, (0.5, 0.1, 0.09)] ! Suc 0)"
    by (simp_all add: vz_def)
  from C9_lift_term [OF bz zs len rp rp k others le1] obtain l1 l2 where
    a1: "max_lift_reward (scene2 1 ?p (0.5, 0.1, 0.04)) ?e = Inr l1" and
    a2: "max_lift_reward (scene2 1 ?p (0.5, 0.1, 0.06)) ?e = Inr l2" and
    v1: "l1 = clip ((vz ([?p, (0.5, 0.1, 0.04)] ! Suc 0) - [0.02, 0.02] ! Suc 0) / (block_z ?e * 2)) 0 1" and
    v2: "l2 = clip ((vz ([?p, (0.5, 0.1, 0.06)] ! Suc 0) - [0.02, 0.02] ! Suc 0) / (block_z ?e * 2)) 0 1"
    by (elim exE conjE) (rule that)
  from C9_lift_term [OF bz zs len rp rp k others le2] obtain l4 where
    a4: "max_lift_reward (scene2 1 ?p (0.5, 0.1, 0.09)) ?e = Inr l4" and
    v4: "l4 = clip ((vz ([?p, (0.5, 0.1, 0.09)] ! Suc 0) - [0.02, 0.02] ! Suc 0) / (block_z ?e * 2)) 0 1"
    by (elim exE conjE) (rule that)
  have "l1 = 0.5" unfolding v1 bv by (simp add: vz_def clip_def)
  moreover have "l2 = 1" unfolding v2 bv by (simp add: vz_def clip_def)
  moreover have "l4 = 1" unfolding v4 bv by (simp add: vz_def clip_def)
  ultimately show ?thesis using a1 a2 a4 by simp
qed

lemma harmonic_draws_shift: "(\<lambda>n. harmonic_draws k (Suc (Suc n))) = harmonic_draws (k + 2)"
  by (rule ext) (simp add: harmonic_draws_def)

section \<open>Reset: placement, baselines and seeding\<close>

text \<open>
  Claim C2 (not met by the code). With randomised placement disabled and two blocks,
  the claim puts object 0 at \<open>(0.5, -0.1, h)\<close> and object 1 at \<open>(0.5, 0.0, h)\<close>.
  The placement loop names the joint \<^verbatim>\<open>f"block{i}" if i > 0 else "block1"\<close>, so both
  iterations write the joint of \<^verbatim>\<open>block1\<close>: it ends at \<open>(0.5, 0.0, h)\<close>, and
  \<^verbatim>\<open>block2\<close> stays where the physics reset left it. The theorem evaluates
  \<^verbatim>\<open>reset\<close> on such a scene.
\<close>

theorem C2_reset_fixed_placement:
  "reset None (harmonic_draws 2) (scene2 0 (0.4, 0.05, 0.02) (0.45, - 0.05, 0.02))
     (fresh_env ''sparse'' 2 False) =
   Inr ((StateObs [] (0.4, 0.05, 0.02), Map.empty),
        (fresh_env ''sparse'' 2 False)
          \<lparr>z_inits := Some [0.02, 0.02], prev_gripper_closed := Some False\<rparr>,
        (scene2 0 (0.4, 0.05, 0.02) (0.45, - 0.05, 0.02))
          \<lparr>block_qpos := [''block1'' \<mapsto> (0.5, 0, 0.02), ''block2'' \<mapsto> (0.45, - 0.05, 0.02)]\<rparr>,
        harmonic_draws 2)"
  using reset_scene2 [of None "harmonic_draws 2" 0 "(0.4, 0.05, 0.02)" "(0.45, - 0.05, 0.02)" "''sparse''"]
  by (simp add: super_reset_def vz_def)

text \<open>
  Claim C3 (not met by the code). The baseline at index \<open>i\<close> should be the height of the
  object whose position the lift term reads at index \<open>i\<close>. The loop that fills
  \<^verbatim>\<open>_z_inits\<close> uses the names of the placement loop, the lift term uses
  \<^verbatim>\<open>f"block{i + 1}"\<close>: with \<^verbatim>\<open>block1\<close> at height 0.02 and \<^verbatim>\<open>block2\<close> at
  height 0.3, the baselines after reset are \<open>[0.02, 0.02]\<close> while the positions the lift
  term reads have heights 0.02 and 0.3, and the lift term is 1 before any step.
\<close>

theorem C3_baseline_of_wrong_block:
  "reset None (harmonic_draws 2) (scene2 0 (0.4, 0.05, 0.02) (0.45, - 0.05, 0.3))
     (fresh_env ''dense'' 2 False) =
   Inr ((StateObs [] (0.4, 0.05, 0.02), Map.empty),
        (fresh_env ''dense'' 2 False)
          \<lparr>z_inits := Some [0.02, 0.02], prev_gripper_closed := Some False\<rparr>,
        (scene2 0 (0.4, 0.05, 0.02) (0.45, - 0.05, 0.3))
          \<lparr>block_qpos := [''block1'' \<mapsto> (0.5, 0, 0.02), ''block2'' \<mapsto> (0.45, - 0.05, 0.3)]\<rparr>,
        harmonic_draws 2)
   \<and> read_positions
        ((scene2 0 (0.4, 0.05, 0.02) (0.45, - 0.05, 0.3))
           \<lparr>block_qpos := [''block1'' \<mapsto> (0.5, 0, 0.02), ''block2'' \<mapsto> (0.45, - 0.05, 0.3)]\<rparr>) 2 =
      Inr [(0.4, 0.05, 0.02), (0.45, - 0.05, 0.3)]
   \<and> max_lift_reward
        ((scene2 0 (0.4, 0.05, 0.02) (0.45, - 0.05, 0.3))
           \<lparr>block_qpos := [''block1'' \<mapsto> (0.5, 0, 0.02), ''block2'' \<mapsto> (0.45, - 0.05, 0.3)]\<rparr>)
        ((fresh_env ''dense'' 2 False)
           \<lparr>z_inits := Some [0.02, 0.02], prev_gripper_closed := Some False\<rparr>) = Inr 1"
proof -
  have a: "reset None (harmonic_draws 2) (scene2 0 (0.4, 0.05, 0.02) (0.45, - 0.05, 0.3))
     (fresh_env ''dense'' 2 False) =
   Inr ((StateObs [] (0.4, 0.05, 0.02), Map.empty),
        (fresh_env ''dense'' 2 False)
          \<lparr>z_inits := Some [0.02, 0.02], prev_gripper_closed := Some False\<rparr>,
        (scene2 0 (0.4, 0.05, 0.02) (0.45, - 0.05, 0.3))
          \<lparr>block_qpos := [''block1'' \<mapsto> (0.5, 0, 0.02), ''block2'' \<mapsto> (0.45, - 0.05, 0.3)]\<rparr>,
        harmonic_draws 2)"
    using reset_scene2 [of None "harmonic_draws 2" 0 "(0.4, 0.05, 0.02)" "(0.45, - 0.05, 0.3)" "''dense''"]
    by (simp add: super_reset_def vz_def)
  have b: "read_positions
        ((scene2 0 (0.4, 0.05, 0.02) (0.45, - 0.05, 0.3))
           \<lparr>block_qpos := [''block1'' \<mapsto> (0.5, 0, 0.02), ''block2'' \<mapsto> (0.45, - 0.05, 0.3)]\<rparr>) 2 =
      Inr [(0.4, 0.05, 0.02), (0.45, - 0.05, 0.3)]"
    by (simp add: read_positions_def py_range_2 block_name_0 block_name_1 sensor_def scene2_def)
  have c: "max_lift_reward
        ((scene2 0 (0.4, 0.05, 0.02) (0.45, - 0.05, 0.3))
           \<lparr>block_qpos := [''block1'' \<mapsto> (0.5, 0, 0.02), ''block2'' \<mapsto> (0.45, - 0.05, 0.3)]\<rparr>)
        ((fresh_env ''dense'' 2 False)
           \<lparr>z_inits := Some [0.02, 0.02], prev_gripper_closed := Some False\<rparr>) = Inr 1"
    by (simp add: max_lift_reward_def read_positions_def py_range_2 block_name_0 block_name_1
        sensor_def scene2_def fresh_env_def enumerate_eq_zip vz_def clip_def)
  from a b c show ?thesis by (intro conjI)
qed

lemma reset_random_one_block:
  "reset seed (harmonic_draws k) (scene2 q p1 p2) (fresh_env rt 1 True) =
     Inr ((StateObs [] p1, Map.empty),
          (super_reset seed (fresh_env rt 1 True))
            \<lparr>z_inits := Some [vz p1], prev_gripper_closed := Some False\<rparr>,
          (scene2 q p1 p2)
            \<lparr>block_qpos := [''block1'' \<mapsto> (0.3 + 0.2 * harmonic_draws k 0,
                                               - 0.15 + 0.3 * harmonic_draws k 1, 0.02),
                             ''block2'' \<mapsto> p2]\<rparr>,
          harmonic_draws (k + 2))"
proof -
  have n: "num_blocks (super_reset seed (fresh_env rt 1 True)) = 1"
    and r: "random_block_position (super_reset seed (fresh_env rt 1 True)) = True"
    and b: "block_z (super_reset seed (fresh_env rt 1 True)) = 0.02"
    and i: "image_obs (super_reset seed (fresh_env rt 1 True)) = False"
    by (simp_all add: super_reset_def fresh_env_def split: option.splits)
  have m: "[''block2'' \<mapsto> p2, ''block1'' \<mapsto> v] = [''block1'' \<mapsto> v, ''block2'' \<mapsto> p2]"
    for v :: vec3
    by (rule ext) simp
  show ?thesis
    by (simp add: reset_def Let_def n r b i py_range_1 reset_name_0 uniform_sampling_def
        SAMPLING_BOUNDS_def harmonic_draws_shift
        read_z_inits_def sensor_def compute_observation_def scene2_def m)
qed

lemma place_blocks_ignores_seed:
  "place_blocks (super_reset seed self) g d is = place_blocks self g d is"
proof (induction "is" arbitrary: g d)
  case Nil
  then show ?case by simp
next
  case (Cons i "is")
  have r: "random_block_position (super_reset seed self) = random_block_position self"
    and b: "block_z (super_reset seed self) = block_z self"
    by (simp_all add: super_reset_def split: option.splits)
  show ?case by (simp add: Cons.IH r b Let_def split: option.splits prod.splits)
qed

text \<open>
  Claim C4 (not met by the code). Two fresh, identically configured environments with
  randomised placement are reset with the same seed 7, the second after the first in the
  same process. The samples come from numpy's module-level generator, which the seed does
  not touch: the first reset places \<^verbatim>\<open>block1\<close> at \<open>(0.4, -0.05, h)\<close> and leaves the
  generator two draws further, the second places it at \<open>(0.35, -0.09, h)\<close>.
\<close>

theorem C4_same_seed_different_placement:
  "reset (Some 7) (harmonic_draws 2) (scene2 0 (0.4, 0.05, 0.02) (0.45, - 0.05, 0.02))
     (fresh_env ''sparse'' 1 True) =
   Inr ((StateObs [] (0.4, 0.05, 0.02), Map.empty),
        (fresh_env ''sparse'' 1 True)
          \<lparr>z_inits := Some [0.02], prev_gripper_closed := Some False, np_random_seed := Some 7\<rparr>,
        (scene2 0 (0.4, 0.05, 0.02) (0.45, - 0.05, 0.02))
          \<lparr>block_qpos := [''block1'' \<mapsto> (0.4, - 0.05, 0.02), ''block2'' \<mapsto> (0.45, - 0.05, 0.02)]\<rparr>,
        harmonic_draws 4)
   \<and> reset (Some 7) (harmonic_draws 4) (scene2 0 (0.4, 0.05, 0.02) (0.45, - 0.05, 0.02))
     (fresh_env ''sparse'' 1 True) =
   Inr ((StateObs [] (0.4, 0.05, 0.02), Map.empty),
        (fresh_env ''sparse'' 1 True)
          \<lparr>z_inits := Some [0.02], prev_gripper_closed := Some False, np_random_seed := Some 7\<rparr>,
        (scene2 0 (0.4, 0.05, 0.02) (0.45, - 0.05, 0.02))
          \<lparr>block_qpos := [''block1'' \<mapsto> (0.35, - 0.09, 0.02), ''block2'' \<mapsto> (0.45, - 0.05, 0.02)]\<rparr>,
        harmonic_draws 6)"
proof -
  have e: "super_reset (Some 7) (fresh_env ''sparse'' 1 True)
             \<lparr>z_inits := z, prev_gripper_closed := Some False\<rparr> =
           (fresh_env ''sparse'' 1 True)
             \<lparr>z_inits := z, prev_gripper_closed := Some False, np_random_seed := Some 7\<rparr>" for z
    by (simp add: super_reset_def fresh_env_def)
  have a: "(2::nat) + 2 = 4" and b: "(4::nat) + 2 = 6" by simp_all
  show ?thesis
    using reset_random_one_block [of "Some 7" 2 0 "(0.4, 0.05, 0.02)" "(0.45, - 0.05, 0.02)" "''sparse''"]
      reset_random_one_block [of "Some 7" 4 0 "(0.4, 0.05, 0.02)" "(0.45, - 0.05, 0.02)" "''sparse''"]
    by (simp add: e a b vz_def harmonic_draws_def)
qed

section \<open>Steps return on well-formed snapshots\<close>

text \<open>
  The theorems on \<^verbatim>\<open>step\<close> above speak about returning steps. A step does return
  whenever the snapshot defines the sensors and joints of the \<open>N\<close> blocks, the sensor of
  \<^verbatim>\<open>block1\<close> and the gripper joint and, in dense mode, \<^verbatim>\<open>reset\<close> has stored at
  least \<open>N\<close> baselines.
\<close>

lemma max_lift_reward_returns:
  assumes "blocks_defined d (num_blocks self)"
    and "z_inits self = Some zs" and "nat (num_blocks self) \<le> length zs"
  shows "\<exists>lift. max_lift_reward d self = Inr lift"
proof -
  from read_positions_total [OF assms(1)] obtain ps where
    ps: "read_positions d (num_blocks self) = Inr ps" ..
  have "length ps = nat (num_blocks self)" by (rule read_positions_length [OF ps])
  with assms(3) have "\<forall>(i, p)\<in>set (enumerate 0 ps). i < length zs"
    by (auto simp: in_set_enumerate_eq)
  from lift_loop_Max [OF this] show ?thesis
    unfolding max_lift_reward_def ps assms(2) by simp
qed

lemma is_success_returns:
  assumes "blocks_defined d (num_blocks self)"
  shows "\<exists>b. is_success d self = Inr b"
proof -
  from read_positions_total [OF assms] obtain ps where
    "read_positions d (num_blocks self) = Inr ps" ..
  from is_success_value [OF this assms] show ?thesis by blast
qed

lemma compute_reward_returns:
  assumes bd: "blocks_defined d (num_blocks self)"
    and g: "driver_qpos d ''left_driver_joint'' \<noteq> None"
    and z: "reward_type self = ''dense'' \<longrightarrow>
             (\<exists>zs. z_inits self = Some zs \<and> nat (num_blocks self) \<le> length zs)"
  shows "\<exists>rew self'. compute_reward d self = Inr (rew, self')"
proof -
  let ?s1 = "self\<lparr>tracker_calls := tracker_calls self + 1,
                   prev_gripper_closed := Some (gripper_closed d)\<rparr>"
  let ?rel = "prev_gripper_closed self = Some True \<and> \<not> gripper_closed d"
  have t: "was_block_just_released d self = Inr (?rel, ?s1)"
    by (rule tracker_value [OF gripper_defined [OF g]])
  from is_success_returns [OF bd] obtain b where b: "is_success d self = Inr b" ..
  have b1: "is_success d ?s1 = Inr b" using b by (simp add: is_success_frame)
  show ?thesis
  proof (cases "reward_type self = ''dense''")
    case True
    with z obtain zs where "z_inits self = Some zs" "nat (num_blocks self) \<le> length zs"
      by blast
    from max_lift_reward_returns [OF bd this] obtain lift where
      l: "max_lift_reward d self = Inr lift" ..
    have st: "stack_reward d ?s1 ?rel = Inr (if ?rel \<and> b then 2.0 else if b then 0.5 else 0.0)"
      unfolding stack_reward_def b1 by (cases b; cases ?rel) simp_all
    show ?thesis using True l t st by (simp add: compute_reward_def)
  next
    case False
    show ?thesis using False t b1 by (cases b; cases ?rel) (simp_all add: compute_reward_def)
  qed
qed

lemma step_returns:
  assumes bd: "blocks_defined d (num_blocks self)"
    and s1: "sensor_data d ''block1_pos'' \<noteq> None"
    and g: "driver_qpos d ''left_driver_joint'' \<noteq> None"
    and z: "reward_type self = ''dense'' \<longrightarrow>
             (\<exists>zs. z_inits self = Some zs \<and> nat (num_blocks self) \<le> length zs)"
  shows "\<exists>r self'. step d self = Inr (r, self')"
proof -
  from s1 obtain p where p: "sensor d ''block1_pos'' = Inr p"
    by (auto simp: sensor_def)
  then have "\<exists>ob. compute_observation d self = Inr ob"
    by (simp add: compute_observation_def)
  then obtain ob where ob: "compute_observation d self = Inr ob" ..
  from compute_reward_returns [OF bd g z] obtain rew self' where
    cr: "compute_reward d self = Inr (rew, self')" by blast
  from compute_reward_frame [OF cr] obtain c where
    f: "self' = self\<lparr>tracker_calls := tracker_calls self + 1, prev_gripper_closed := Some c\<rparr>"
    by blast
  from is_success_returns [OF bd] obtain b where "is_success d self = Inr b" ..
  then have b: "is_success d self' = Inr b" unfolding f by (simp add: is_success_frame)
  show ?thesis using ob cr b p by (simp add: step_def Let_def)
qed

end
